theory Spec2Isabelle
  imports Complex_Main
begin

section \<open>Python values used by the client library\<close>

text \<open>
  A Python \<open>str\<close> is a sequence of Unicode code points. It is modelled as a list of
  natural numbers, one per code point, so that \<open>str.strip\<close> and \<open>str.lstrip\<close> see the
  same whitespace characters as CPython does. \<open>py\<close> turns an ASCII literal into
  such a list.
\<close>

type_synonym pystr = "nat list"

definition py :: "string \<Rightarrow> pystr" where
  "py s = map of_char s"

definition NL :: nat where
  "NL = 10"

definition COLON :: nat where
  "COLON = 58"

text \<open>The characters for which \<open>str.isspace\<close> holds (CPython's \<open>_PyUnicode_IsWhitespace\<close>).\<close>

definition py_isspace :: "nat \<Rightarrow> bool" where
  "py_isspace c \<longleftrightarrow>
     (9 \<le> c \<and> c \<le> 13) \<or> (28 \<le> c \<and> c \<le> 32) \<or> c = 133 \<or> c = 160 \<or> c = 5760 \<or>
     (8192 \<le> c \<and> c \<le> 8202) \<or> c = 8232 \<or> c = 8233 \<or> c = 8239 \<or> c = 8287 \<or> c = 12288"

definition lstrip :: "pystr \<Rightarrow> pystr" where
  "lstrip s = dropWhile py_isspace s"

definition strip :: "pystr \<Rightarrow> pystr" where
  "strip s = rev (dropWhile py_isspace (rev (dropWhile py_isspace s)))"

text \<open>\<open>s.split(sep)\<close> for a one-character separator: never an empty list.\<close>

fun split_on :: "nat \<Rightarrow> pystr \<Rightarrow> pystr list" where
  "split_on sep [] = [[]]"
| "split_on sep (c # cs) =
     (if c = sep then [] # split_on sep cs
      else (case split_on sep cs of
              [] \<Rightarrow> [[c]]
            | w # ws \<Rightarrow> (c # w) # ws))"

text \<open>
  \<open>buffer.split("\n\n", 1)\<close> guarded by \<open>"\n\n" in buffer\<close>: \<open>None\<close> when the
  separator does not occur, otherwise the text before its first occurrence and the
  text after it.
\<close>

fun split_nn :: "pystr \<Rightarrow> (pystr \<times> pystr) option" where
  "split_nn (c # d # cs) =
     (if c = NL \<and> d = NL then Some ([], cs)
      else (case split_nn (d # cs) of
              None \<Rightarrow> None
            | Some (a, b) \<Rightarrow> Some (c # a, b)))"
| "split_nn _ = None"

section \<open>streaming.py: the SSE frame parser\<close>

text \<open>The dataclass \<open>SSEEvent\<close>; its field \<open>id\<close> is \<open>event_id\<close> here.\<close>

record SSEEvent =
  event_id :: "pystr option"
  event :: "pystr option"
  data :: "pystr option"
  retry :: "int option"

definition empty_event :: SSEEvent where
  "empty_event = \<lparr>event_id = None, event = None, data = None, retry = None\<rparr>"

text \<open>Truthiness of an \<open>Optional[str]\<close>: neither \<open>None\<close> nor the empty string.\<close>

fun truthy :: "pystr option \<Rightarrow> bool" where
  "truthy None = False"
| "truthy (Some s) = (s \<noteq> [])"

text \<open>
  One line of an event block (the body of the \<open>for line in ...\<close> loop of
  \<open>_parse_event\<close>). \<open>py_int\<close> is Python's \<open>int(str)\<close>, \<open>None\<close> standing for
  \<open>ValueError\<close>; it is a parameter of the model.
\<close>

definition parse_line :: "(pystr \<Rightarrow> int option) \<Rightarrow> SSEEvent \<Rightarrow> pystr \<Rightarrow> SSEEvent" where
  "parse_line py_int ev line =
     (if line = [] then ev
      else if COLON \<notin> set line then ev
      else
        let field = takeWhile (\<lambda>c. c \<noteq> COLON) line;
            val = lstrip (tl (dropWhile (\<lambda>c. c \<noteq> COLON) line))
        in if field = py ''id'' then ev\<lparr>event_id := Some val\<rparr>
           else if field = py ''event'' then ev\<lparr>event := Some val\<rparr>
           else if field = py ''data'' then ev\<lparr>data := Some val\<rparr>
           else if field = py ''retry'' then
             (case py_int val of
                Some n \<Rightarrow> ev\<lparr>retry := Some n\<rparr>
              | None \<Rightarrow> ev)
           else ev)"

definition parse_event :: "(pystr \<Rightarrow> int option) \<Rightarrow> pystr \<Rightarrow> SSEEvent option" where
  "parse_event py_int event_str =
     (if strip event_str = [] then None
      else
        let ev = foldl (parse_line py_int) empty_event (split_on NL event_str)
        in if truthy (data ev) then Some ev else None)"

lemma split_nn_shorter: "split_nn buf = Some (a, b) \<Longrightarrow> length b < length buf"
proof (induction buf arbitrary: a rule: split_nn.induct)
  case (1 c d cs)
  then show ?case
    by (auto split: if_splits option.splits)
qed simp_all

text \<open>
  The \<open>while "\n\n" in self.buffer\<close> loop of \<open>SSEParser.parse\<close>, run to the end:
  the frames it yields, in order, and the buffer it leaves.
\<close>

function parse_loop :: "(pystr \<Rightarrow> int option) \<Rightarrow> pystr \<Rightarrow> SSEEvent list \<times> pystr" where
  "parse_loop py_int buf =
     (case split_nn buf of
        None \<Rightarrow> ([], buf)
      | Some (event_str, rest) \<Rightarrow>
          (let (evs, b) = parse_loop py_int rest
           in (case parse_event py_int event_str of
                 None \<Rightarrow> (evs, b)
               | Some e \<Rightarrow> (e # evs, b))))"
  by pat_completeness auto
termination
  by (relation "measure (\<lambda>(f, buf). length buf)") (auto dest: split_nn_shorter)

declare parse_loop.simps [simp del]

record SSEParser =
  buffer :: pystr

definition new_parser :: SSEParser where
  "new_parser = \<lparr>buffer = []\<rparr>"

text \<open>
  \<open>SSEParser.parse(chunk)\<close> with its generator consumed to the end, as the \<open>for\<close>
  loops of the streaming responses do: the frames yielded and the parser afterwards.
\<close>

definition parse :: "(pystr \<Rightarrow> int option) \<Rightarrow> SSEParser \<Rightarrow> pystr \<Rightarrow> SSEEvent list \<times> SSEParser" where
  "parse py_int p chunk =
     (let (evs, b) = parse_loop py_int (buffer p @ chunk)
      in (evs, p\<lparr>buffer := b\<rparr>))"

text \<open>Feeding the chunks one at a time to the same parser: one \<open>parse\<close> call each.\<close>

fun feed :: "(pystr \<Rightarrow> int option) \<Rightarrow> SSEParser \<Rightarrow> pystr list \<Rightarrow> SSEEvent list \<times> SSEParser" where
  "feed py_int p [] = ([], p)"
| "feed py_int p (c # cs) =
     (let (evs, p') = parse py_int p c;
          (evs', p'') = feed py_int p' cs
      in (evs @ evs', p''))"

subsection \<open>The data field of an event block\<close>

text \<open>
  What \<open>_parse_event\<close> takes for a data field: a line that holds a colon and whose
  text before the first colon is exactly \<open>data\<close>. \<open>data_value\<close> is what the loop
  stores for such a line: the text after the first colon, left-stripped.
\<close>

definition is_data_line :: "pystr \<Rightarrow> bool" where
  "is_data_line line \<longleftrightarrow> COLON \<in> set line \<and> takeWhile (\<lambda>c. c \<noteq> COLON) line = py ''data''"

definition data_lines :: "pystr \<Rightarrow> pystr list" where
  "data_lines block = filter is_data_line (split_on NL block)"

definition data_value :: "pystr \<Rightarrow> pystr" where
  "data_value line = lstrip (tl (dropWhile (\<lambda>c. c \<noteq> COLON) line))"

section \<open>utils.py: message content, capabilities, default token budgets\<close>

text \<open>
  The Python values that reach the request builder and come out of \<open>json.loads\<close>. A
  dict is an association list read with \<open>map_of\<close>; a float is kept as its text.
\<close>

datatype pyval =
    PNone
  | PBool bool
  | PInt int
  | PFloat pystr
  | PStr pystr
  | PList "pyval list"
  | PDict "(pystr \<times> pyval) list"

text \<open>
  What the request builder can raise before it talks to the network: \<open>ValueError\<close> with
  its message, \<open>KeyError\<close> with the missing key, \<open>TypeError\<close> (subscripting or
  iterating a value that does not support it) and pydantic's \<open>ValidationError\<close>; the
  texts of the last two are not modelled.
\<close>

datatype py_error =
    ValueError pystr
  | KeyError pystr
  | TypeError
  | ValidationError

text \<open>\<open>v[key]\<close> for a string key.\<close>

fun subscript :: "pyval \<Rightarrow> pystr \<Rightarrow> py_error + pyval" where
  "subscript (PDict kv) key =
     (case map_of kv key of
        None \<Rightarrow> Inl (KeyError key)
      | Some v \<Rightarrow> Inr v)"
| "subscript _ key = Inl TypeError"

text \<open>
  One turn of the \<open>for item in content\<close> loop of \<open>prepare_message_content\<close>: the item
  appended to \<open>prepared_content\<close>, \<open>None\<close> when nothing is appended.
\<close>

fun prepare_item :: "pyval \<Rightarrow> py_error + pyval option" where
  "prepare_item (PDict item) =
     (if map_of item (py ''type'') = Some (PStr (py ''text'')) then
        (case subscript (PDict item) (py ''text'') of
           Inl e \<Rightarrow> Inl e
         | Inr t \<Rightarrow> Inr (Some (PDict [(py ''type'', PStr (py ''text'')), (py ''text'', t)])))
      else if map_of item (py ''type'') = Some (PStr (py ''image_url'')) then
        (if py ''image_url'' \<in> fst ` set item then
           (case subscript (PDict item) (py ''image_url'') of
              Inl e \<Rightarrow> Inl e
            | Inr src \<Rightarrow>
                (case subscript src (py ''url'') of
                   Inl e \<Rightarrow> Inl e
                 | Inr u \<Rightarrow>
                     Inr (Some (PDict [(py ''type'', PStr (py ''image_url'')),
                                       (py ''imageUrl'', PDict [(py ''url'', u)])]))))
         else if py ''data_uri'' \<in> fst ` set item then
           (case subscript (PDict item) (py ''data_uri'') of
              Inl e \<Rightarrow> Inl e
            | Inr src \<Rightarrow>
                (case subscript src (py ''data'') of
                   Inl e \<Rightarrow> Inl e
                 | Inr d \<Rightarrow>
                     Inr (Some (PDict [(py ''type'', PStr (py ''image_url'')),
                                       (py ''dataUri'', PDict [(py ''data'', d)])]))))
         else Inr None)
      else Inr None)"
| "prepare_item _ = Inr None"

text \<open>The loop over a list of items: it stops at the first item that raises.\<close>

fun prepare_items :: "pyval list \<Rightarrow> py_error + pyval list" where
  "prepare_items [] = Inr []"
| "prepare_items (item # items) =
     (case prepare_item item of
        Inl e \<Rightarrow> Inl e
      | Inr r \<Rightarrow>
          (case prepare_items items of
             Inl e \<Rightarrow> Inl e
           | Inr rs \<Rightarrow> Inr ((case r of None \<Rightarrow> [] | Some x \<Rightarrow> [x]) @ rs)))"

text \<open>
  \<open>prepare_message_content\<close>. A string is returned as it is. Anything else is
  iterated: a list gives its items, a dict gives its keys (strings, so nothing is
  appended), and a value that cannot be iterated raises \<open>TypeError\<close>.
\<close>

fun prepare_message_content :: "pyval \<Rightarrow> py_error + pyval" where
  "prepare_message_content (PStr s) = Inr (PStr s)"
| "prepare_message_content (PList items) =
     (case prepare_items items of
        Inl e \<Rightarrow> Inl e
      | Inr rs \<Rightarrow> Inr (PList rs))"
| "prepare_message_content (PDict kv) = Inr (PList [])"
| "prepare_message_content _ = Inl TypeError"

text \<open>
  The items the loop of \<open>prepare_message_content\<close> passes over without appending
  anything: an item that is not a dict, a dict whose \<open>type\<close> is neither \<open>text\<close> nor
  \<open>image_url\<close>, and an \<open>image_url\<close> dict with neither an \<open>image_url\<close> nor a
  \<open>data_uri\<close> key.
\<close>

fun dropped :: "pyval \<Rightarrow> bool" where
  "dropped (PDict item) =
     (let t = map_of item (py ''type'') in
        (t \<noteq> Some (PStr (py ''text'')) \<and> t \<noteq> Some (PStr (py ''image_url''))) \<or>
        (t = Some (PStr (py ''image_url'')) \<and>
           py ''image_url'' \<notin> fst ` set item \<and> py ''data_uri'' \<notin> fst ` set item))"
| "dropped _ = True"

subsection \<open>Capabilities\<close>

definition capabilities :: "(pystr \<times> pystr list) list" where
  "capabilities =
     [(py ''HCX-005'', [py ''vision'', py ''function_calling'']),
      (py ''HCX-007'', [py ''thinking'', py ''structured_output'', py ''function_calling'']),
      (py ''HCX-DASH-002'', [py ''function_calling''])]"

text \<open>\<open>capabilities.get(model, [])\<close>.\<close>

definition model_caps :: "pystr \<Rightarrow> pystr list" where
  "model_caps model = (case map_of capabilities model of None \<Rightarrow> [] | Some cs \<Rightarrow> cs)"

definition validate_model_capability :: "pystr \<Rightarrow> pystr \<Rightarrow> py_error + unit" where
  "validate_model_capability model feature =
     (if feature = py ''thinking'' \<and> py ''thinking'' \<notin> set (model_caps model) then
        Inl (ValueError (py ''Model '' @ model @ py '' does not support thinking mode''))
      else if feature = py ''vision'' \<and> py ''vision'' \<notin> set (model_caps model) then
        Inl (ValueError (py ''Model '' @ model @ py '' does not support image input''))
      else if feature = py ''structured_output'' \<and>
              py ''structured_output'' \<notin> set (model_caps model) then
        Inl (ValueError (py ''Model '' @ model @ py '' does not support structured output''))
      else if feature = py ''function_calling'' \<and>
              py ''function_calling'' \<notin> set (model_caps model) then
        Inl (ValueError (py ''Model '' @ model @ py '' does not support function calling''))
      else Inr ())"

text \<open>The feature names the validator has a branch for.\<close>

definition known_features :: "pystr list" where
  "known_features =
     [py ''thinking'', py ''vision'', py ''structured_output'', py ''function_calling'']"

subsection \<open>Default token budgets\<close>

definition effort_defaults :: "(pystr \<times> int) list" where
  "effort_defaults =
     [(py ''none'', 512), (py ''low'', 5120), (py ''medium'', 10240), (py ''high'', 20480)]"

definition model_defaults :: "(pystr \<times> int) list" where
  "model_defaults = [(py ''HCX-005'', 4096), (py ''HCX-007'', 4096), (py ''HCX-DASH-002'', 4096)]"

definition get_max_tokens :: "pystr \<Rightarrow> pystr option \<Rightarrow> int" where
  "get_max_tokens model thinking_effort =
     (if model = py ''HCX-007'' \<and> truthy thinking_effort then
        (case map_of effort_defaults (the thinking_effort) of
           None \<Rightarrow> 5120
         | Some n \<Rightarrow> n)
      else (case map_of model_defaults model of None \<Rightarrow> 4096 | Some n \<Rightarrow> n))"

section \<open>completions.py and models.py: building the request\<close>

text \<open>
  The \<open>thinking\<close> argument of \<open>create\<close>: a dict of strings or a \<open>ThinkingConfig\<close>
  object (given by its \<open>effort\<close>). A dict is truthy when it is not empty, the object
  always; \<open>thinking_effort\<close> is
  \<open>thinking.get("effort", "low") if isinstance(thinking, dict) else thinking.effort\<close>.
\<close>

datatype thinking_arg =
    ThinkingDict "(pystr \<times> pystr) list"
  | ThinkingConfig pystr

fun thinking_truthy :: "thinking_arg option \<Rightarrow> bool" where
  "thinking_truthy None = False"
| "thinking_truthy (Some (ThinkingDict kv)) = (kv \<noteq> [])"
| "thinking_truthy (Some (ThinkingConfig e)) = True"

fun thinking_effort :: "thinking_arg \<Rightarrow> pystr" where
  "thinking_effort (ThinkingDict kv) =
     (case map_of kv (py ''effort'') of None \<Rightarrow> py ''low'' | Some e \<Rightarrow> e)"
| "thinking_effort (ThinkingConfig e) = e"

text \<open>
  The arguments of \<open>ChatCompletions.create\<close> that the model follows. Messages are
  given as dicts. The other keyword arguments (\<open>temperature\<close>, \<open>top_p\<close>, \<open>top_k\<close>,
  \<open>repetition_penalty\<close>, \<open>stop\<close>, \<open>seed\<close>, \<open>include_ai_filters\<close>, \<open>tool_choice\<close>)
  are left at \<open>None\<close>, where \<open>create\<close> adds nothing to the request for them.
\<close>

record create_args =
  model :: pystr
  messages :: "(pystr \<times> pyval) list list"
  max_tokens :: "int option"
  max_completion_tokens :: "int option"
  thinking :: "thinking_arg option"
  tools :: "pyval list option"
  response_format :: "(pystr \<times> pyval) list option"

text \<open>\<open>request_data\<close>, the dict handed to \<open>ChatCompletionRequest\<close>.\<close>

record request_data =
  rd_messages :: "(pystr \<times> pyval) list list"
  rd_maxTokens :: "int option"
  rd_maxCompletionTokens :: "int option"
  rd_thinking :: "thinking_arg option"
  rd_tools :: "pyval list option"
  rd_responseFormat :: "(pystr \<times> pyval) list option"

text \<open>The validated request object: \<open>thinking\<close> is now a \<open>ThinkingConfig\<close>, kept as its effort.\<close>

record request =
  req_messages :: "(pystr \<times> pyval) list list"
  req_max_tokens :: "int option"
  req_max_completion_tokens :: "int option"
  req_thinking :: "pystr option"
  req_tools :: "pyval list option"
  req_response_format :: "(pystr \<times> pyval) list option"

text \<open>
  The image scan of \<open>create\<close>: \<open>content = msg.get("content", "")\<close>, and when it is a
  list, whether some item is a dict whose \<open>type\<close> is \<open>image_url\<close>.
\<close>

fun is_image_item :: "pyval \<Rightarrow> bool" where
  "is_image_item (PDict item) = (map_of item (py ''type'') = Some (PStr (py ''image_url'')))"
| "is_image_item _ = False"

definition has_image :: "(pystr \<times> pyval) list \<Rightarrow> bool" where
  "has_image msg =
     (case map_of msg (py ''content'') of
        Some (PList items) \<Rightarrow> list_ex is_image_item items
      | _ \<Rightarrow> False)"

fun check_vision :: "pystr \<Rightarrow> (pystr \<times> pyval) list list \<Rightarrow> py_error + unit" where
  "check_vision m [] = Inr ()"
| "check_vision m (msg # msgs) =
     (if has_image msg then
        (case validate_model_capability m (py ''vision'') of
           Inl e \<Rightarrow> Inl e
         | Inr _ \<Rightarrow> check_vision m msgs)
      else check_vision m msgs)"

text \<open>One turn of the \<open>for msg in messages\<close> loop that fills \<open>prepared_messages\<close>.\<close>

definition prepare_message :: "(pystr \<times> pyval) list \<Rightarrow> py_error + (pystr \<times> pyval) list" where
  "prepare_message msg =
     (case subscript (PDict msg) (py ''role'') of
        Inl e \<Rightarrow> Inl e
      | Inr role \<Rightarrow>
          (case subscript (PDict msg) (py ''content'') of
             Inl e \<Rightarrow> Inl e
           | Inr content \<Rightarrow>
               (case prepare_message_content content of
                  Inl e \<Rightarrow> Inl e
                | Inr prepared \<Rightarrow>
                    Inr ([(py ''role'', role), (py ''content'', prepared)] @
                         (case map_of msg (py ''tool_calls'') of
                            None \<Rightarrow> []
                          | Some v \<Rightarrow> [(py ''toolCalls'', v)]) @
                         (case map_of msg (py ''tool_call_id'') of
                            None \<Rightarrow> []
                          | Some v \<Rightarrow> [(py ''toolCallId'', v)])))))"

fun prepare_messages :: "(pystr \<times> pyval) list list \<Rightarrow> py_error + (pystr \<times> pyval) list list" where
  "prepare_messages [] = Inr []"
| "prepare_messages (msg # msgs) =
     (case prepare_message msg of
        Inl e \<Rightarrow> Inl e
      | Inr p \<Rightarrow>
          (case prepare_messages msgs of
             Inl e \<Rightarrow> Inl e
           | Inr ps \<Rightarrow> Inr (p # ps)))"

text \<open>
  The token parameters of \<open>create\<close> (``Handle token parameters based on model''): the
  \<open>maxTokens\<close> and \<open>maxCompletionTokens\<close> entries of \<open>request_data\<close>.
\<close>

definition token_params ::
  "pystr \<Rightarrow> int option \<Rightarrow> int option \<Rightarrow> thinking_arg option \<Rightarrow> int option \<times> int option" where
  "token_params m mt mct th =
     (if m = py ''HCX-007'' then
        (if mct \<noteq> None then (None, mct)
         else if mt \<noteq> None then (None, mt)
         else if thinking_truthy th then
           (None, Some (get_max_tokens m (Some (thinking_effort (the th)))))
         else (None, Some 2048))
      else
        (if mt \<noteq> None then (mt, None)
         else if mct \<noteq> None then (mct, None)
         else (None, None)))"

text \<open>The \<open>thinking\<close> entry of \<open>request_data\<close> (``Handle thinking parameter'').\<close>

definition thinking_param ::
  "pystr \<Rightarrow> thinking_arg option \<Rightarrow> (pystr \<times> pyval) list option \<Rightarrow> thinking_arg option" where
  "thinking_param m th rf =
     (if th \<noteq> None then
        (case th of
           Some (ThinkingConfig e) \<Rightarrow> Some (ThinkingDict [(py ''effort'', e)])
         | _ \<Rightarrow> th)
      else if rf \<noteq> None \<and> m = py ''HCX-007'' then
        Some (ThinkingDict [(py ''effort'', py ''none'')])
      else None)"

text \<open>
  \<open>ChatCompletionRequest.validate_token_params\<close>, run by pydantic for
  \<open>max_completion_tokens\<close> after \<open>max_tokens\<close> has been validated: whether it raises.
\<close>

definition validate_token_params :: "int option \<Rightarrow> int option \<Rightarrow> bool" where
  "validate_token_params data_max_tokens v \<longleftrightarrow> v \<noteq> None \<and> data_max_tokens \<noteq> None"

definition ge1 :: "int option \<Rightarrow> bool" where
  "ge1 v = (case v of None \<Rightarrow> True | Some n \<Rightarrow> 1 \<le> n)"

definition valid_effort :: "pystr \<Rightarrow> bool" where
  "valid_effort e \<longleftrightarrow> e \<in> set [py ''none'', py ''low'', py ''medium'', py ''high'']"

text \<open>
  \<open>ChatCompletionRequest(**request_data)\<close>: the constraints of the two token fields
  (\<open>ge=1\<close>), their validator, and the \<open>ThinkingConfig\<close> literal. What pydantic checks
  on the messages, the tools and the response format is the parameter \<open>schema_ok\<close>.
\<close>

definition ChatCompletionRequest ::
  "(request_data \<Rightarrow> bool) \<Rightarrow> request_data \<Rightarrow> py_error + request" where
  "ChatCompletionRequest schema_ok rd =
     (if \<not> schema_ok rd then Inl ValidationError
      else if \<not> ge1 (rd_maxTokens rd) then Inl ValidationError
      else if \<not> ge1 (rd_maxCompletionTokens rd) then Inl ValidationError
      else if validate_token_params (rd_maxTokens rd) (rd_maxCompletionTokens rd) then
        Inl ValidationError
      else if (case rd_thinking rd of
                 None \<Rightarrow> False
               | Some t \<Rightarrow> \<not> valid_effort (thinking_effort t)) then Inl ValidationError
      else Inr \<lparr>req_messages = rd_messages rd,
                req_max_tokens = rd_maxTokens rd,
                req_max_completion_tokens = rd_maxCompletionTokens rd,
                req_thinking = map_option thinking_effort (rd_thinking rd),
                req_tools = rd_tools rd,
                req_response_format = rd_responseFormat rd\<rparr>)"

text \<open>The capability checks at the head of \<open>create\<close>.\<close>

definition check_capabilities :: "create_args \<Rightarrow> py_error + unit" where
  "check_capabilities a =
     (case (if thinking_truthy (thinking a)
            then validate_model_capability (model a) (py ''thinking'') else Inr ()) of
        Inl e \<Rightarrow> Inl e
      | Inr _ \<Rightarrow>
          (case (if response_format a \<noteq> None \<and> response_format a \<noteq> Some []
                 then validate_model_capability (model a) (py ''structured_output'')
                 else Inr ()) of
             Inl e \<Rightarrow> Inl e
           | Inr _ \<Rightarrow>
               (case (if tools a \<noteq> None \<and> tools a \<noteq> Some []
                      then validate_model_capability (model a) (py ''function_calling'')
                      else Inr ()) of
                  Inl e \<Rightarrow> Inl e
                | Inr _ \<Rightarrow> check_vision (model a) (messages a))))"

text \<open>
  \<open>create\<close> up to the request object it hands to \<open>_create_sync\<close> or
  \<open>_create_stream\<close>: everything it does before any network call.
\<close>

definition create_request :: "(request_data \<Rightarrow> bool) \<Rightarrow> create_args \<Rightarrow> py_error + request" where
  "create_request schema_ok a =
     (case check_capabilities a of
        Inl e \<Rightarrow> Inl e
      | Inr _ \<Rightarrow>
          (case prepare_messages (messages a) of
             Inl e \<Rightarrow> Inl e
           | Inr prepared \<Rightarrow>
               ChatCompletionRequest schema_ok
                 \<lparr>rd_messages = prepared,
                  rd_maxTokens =
                    fst (token_params (model a) (max_tokens a) (max_completion_tokens a) (thinking a)),
                  rd_maxCompletionTokens =
                    snd (token_params (model a) (max_tokens a) (max_completion_tokens a) (thinking a)),
                  rd_thinking = thinking_param (model a) (thinking a) (response_format a),
                  rd_tools = tools a,
                  rd_responseFormat = response_format a\<rparr>))"

text \<open>
  The precedence as the specification words it, with three sources: an explicit
  completion-token value, else the effort table when a thinking effort is supplied, else
  2048.
\<close>

definition spec_completion_limit :: "int option \<Rightarrow> pystr option \<Rightarrow> int" where
  "spec_completion_limit explicit_completion_tokens effort =
     (case explicit_completion_tokens of
        Some v \<Rightarrow> v
      | None \<Rightarrow>
          (case effort of
             Some e \<Rightarrow>
               (if e = py ''none'' then 512 else if e = py ''low'' then 5120
                else if e = py ''medium'' then 10240 else 20480)
           | None \<Rightarrow> 2048))"

subsection \<open>Calls of \<open>create\<close> used below\<close>

text \<open>
  \<open>create(model="HCX-007", messages=[{"role": "user", "content": "hi"}], max_tokens=100,
  thinking={"effort": "high"})\<close>.
\<close>

definition hcx007_max_tokens_call :: create_args where
  "hcx007_max_tokens_call =
     \<lparr>model = py ''HCX-007'',
      messages = [[(py ''role'', PStr (py ''user'')), (py ''content'', PStr (py ''hi''))]],
      max_tokens = Some 100,
      max_completion_tokens = None,
      thinking = Some (ThinkingDict [(py ''effort'', py ''high'')]),
      tools = None,
      response_format = None\<rparr>"

text \<open>
  \<open>create(model="HCX-005", messages=[{"role": "user", "content": "hi"}], max_tokens=10,
  max_completion_tokens=20)\<close>.
\<close>

definition both_limits_call :: create_args where
  "both_limits_call =
     \<lparr>model = py ''HCX-005'',
      messages = [[(py ''role'', PStr (py ''user'')), (py ''content'', PStr (py ''hi''))]],
      max_tokens = Some 10,
      max_completion_tokens = Some 20,
      thinking = None,
      tools = None,
      response_format = None\<rparr>"

text \<open>
  \<open>create(model="HCX-007", messages=[{"role": "user", "content": "hi"}],
  thinking={"effort": "medium"})\<close>.
\<close>

definition hcx007_thinking_call :: create_args where
  "hcx007_thinking_call =
     \<lparr>model = py ''HCX-007'',
      messages = [[(py ''role'', PStr (py ''user'')), (py ''content'', PStr (py ''hi''))]],
      max_tokens = None,
      max_completion_tokens = None,
      thinking = Some (ThinkingDict [(py ''effort'', py ''medium'')]),
      tools = None,
      response_format = None\<rparr>"

section \<open>utils.py: retry with exponential backoff\<close>

text \<open>
  What one call of the operation does: it returns a value, raises an \<open>Exception\<close>, or
  raises a \<open>BaseException\<close> that is no \<open>Exception\<close> (such as \<open>KeyboardInterrupt\<close>),
  which \<open>except Exception\<close> does not catch. The operation is given by the outcome of
  its calls, numbered from 0.
\<close>

datatype ('a, 'e) attempt =
    Return 'a
  | Raise 'e
  | RaiseBase 'e

text \<open>The effects of the driver, in order: the calls of the operation and the sleeps.\<close>

datatype effect =
    Call nat
  | Sleep real

text \<open>
  How the driver ends: with the operation's value, with an exception object of the
  operation propagating, or with the \<open>TypeError\<close> of \<open>raise None\<close>.
\<close>

datatype ('a, 'e) ending =
    Result 'a
  | Propagated 'e
  | RaiseNone

text \<open>
  The \<open>for attempt in range(max_retries)\<close> loop of \<open>retry_with_backoff\<close> from a given
  \<open>attempt\<close> on, followed by the final \<open>raise last_exception\<close>. Delays are real
  numbers: the rounding of Python's floats is not modelled (the default delays 1, 2, 4,
  ..., 60 are exact as floats).
\<close>

function retry_loop ::
  "(nat \<Rightarrow> ('a, 'e) attempt) \<Rightarrow> int \<Rightarrow> real \<Rightarrow> real \<Rightarrow> nat \<Rightarrow> real \<Rightarrow> 'e option \<Rightarrow>
   effect list \<times> ('a, 'e) ending" where
  "retry_loop func max_retries backoff_factor max_delay attempt delay last_exception =
     (if int attempt < max_retries then
        (case func attempt of
           Return v \<Rightarrow> ([Call attempt], Result v)
         | RaiseBase e \<Rightarrow> ([Call attempt], Propagated e)
         | Raise e \<Rightarrow>
             (if int attempt < max_retries - 1 then
                (let (tr, r) = retry_loop func max_retries backoff_factor max_delay (Suc attempt)
                                 (min (delay * backoff_factor) max_delay) (Some e)
                 in (Call attempt # Sleep delay # tr, r))
              else
                (let (tr, r) = retry_loop func max_retries backoff_factor max_delay (Suc attempt)
                                 delay (Some e)
                 in (Call attempt # tr, r))))
      else ([], (case last_exception of None \<Rightarrow> RaiseNone | Some e \<Rightarrow> Propagated e)))"
  by pat_completeness auto
termination
  by (relation "measure (\<lambda>(func, max_retries, bf, md, attempt, d, l). nat (max_retries - int attempt))")
    auto

declare retry_loop.simps [simp del]

definition retry_with_backoff ::
  "(nat \<Rightarrow> ('a, 'e) attempt) \<Rightarrow> int \<Rightarrow> real \<Rightarrow> real \<Rightarrow> real \<Rightarrow> effect list \<times> ('a, 'e) ending" where
  "retry_with_backoff func max_retries initial_delay backoff_factor max_delay =
     retry_loop func max_retries backoff_factor max_delay 0 initial_delay None"

text \<open>
  The end of \<open>_create_sync\<close> (the embeddings client ends the same way), \<open>func\<close> being
  \<open>_make_request\<close>: the retry driver with its default delays when \<open>max_retries > 0\<close>,
  a plain call otherwise.
\<close>

definition create_sync :: "(nat \<Rightarrow> ('a, 'e) attempt) \<Rightarrow> int \<Rightarrow> effect list \<times> ('a, 'e) ending" where
  "create_sync func max_retries =
     (if max_retries > 0 then retry_with_backoff func max_retries 1 2 60
      else ([Call 0],
            (case func 0 of
               Return v \<Rightarrow> Result v
             | Raise e \<Rightarrow> Propagated e
             | RaiseBase e \<Rightarrow> Propagated e)))"

text \<open>
  The schedule the specification gives: the delay after the \<open>k\<close>-th failed attempt
  (from 0) starts at 1 and doubles, capped at 60; \<open>c\<close> attempts have one sleep between
  each two of them.
\<close>

definition backoff_delay :: "nat \<Rightarrow> real" where
  "backoff_delay k = min (2 ^ k) 60"

definition attempts_trace :: "nat \<Rightarrow> nat \<Rightarrow> effect list" where
  "attempts_trace a c = concat (map (\<lambda>k. [Call k, Sleep (backoff_delay k)]) [a..<c - 1]) @ [Call (c - 1)]"

fun is_call :: "effect \<Rightarrow> bool" where
  "is_call (Call k) = True"
| "is_call (Sleep d) = False"

definition n_calls :: "effect list \<Rightarrow> nat" where
  "n_calls tr = length (filter is_call tr)"

fun is_raise :: "('a, 'e) attempt \<Rightarrow> bool" where
  "is_raise (Raise e) = True"
| "is_raise _ = False"

text \<open>What a call's outcome means for the caller when it is the last call made.\<close>

fun ending_of :: "('a, 'e) attempt \<Rightarrow> ('a, 'e) ending" where
  "ending_of (Return v) = Result v"
| "ending_of (Raise e) = Propagated e"
| "ending_of (RaiseBase e) = Propagated e"

section \<open>streaming.py: the stream decoder\<close>

text \<open>
  An exception that passes through the decoder, as far as the decoder looks at it: its
  class (\<open>StreamingError\<close>, \<open>json.JSONDecodeError\<close>, \<open>AttributeError\<close>, or any other
  subclass of \<open>Exception\<close>) and its text \<open>str(e)\<close>.
\<close>

datatype exc_class =
    StreamingError
  | JSONDecodeError
  | AttributeError
  | OtherException

datatype exn = Exn exc_class pystr

fun exn_class :: "exn \<Rightarrow> exc_class" where
  "exn_class (Exn c s) = c"

fun exn_str :: "exn \<Rightarrow> pystr" where
  "exn_str (Exn c s) = s"

text \<open>
  What the decoder takes from outside the repository: \<open>int(str)\<close>, \<open>json.loads\<close>,
  the pydantic constructor \<open>ChatCompletionChunk(**data)\<close> and \<open>str()\<close> of a decoded
  value that is not a string. They are parameters of the model.
\<close>

record 'c runtime =
  py_int :: "pystr \<Rightarrow> int option"
  json_loads :: "pystr \<Rightarrow> exn + pyval"
  make_chunk :: "pyval \<Rightarrow> exn + 'c"
  py_str :: "pyval \<Rightarrow> pystr"

fun type_name :: "pyval \<Rightarrow> pystr" where
  "type_name PNone = py ''NoneType''"
| "type_name (PBool b) = py ''bool''"
| "type_name (PInt n) = py ''int''"
| "type_name (PFloat t) = py ''float''"
| "type_name (PStr s) = py ''str''"
| "type_name (PList xs) = py ''list''"
| "type_name (PDict kv) = py ''dict''"

text \<open>
  \<open>v.get(key, default)\<close>: only a dict has the method. Code point 39 is the
  apostrophe of the \<open>AttributeError\<close> text.
\<close>

fun dict_get :: "pyval \<Rightarrow> pystr \<Rightarrow> pyval \<Rightarrow> exn + pyval" where
  "dict_get (PDict kv) key dflt =
     Inr (case map_of kv key of None \<Rightarrow> dflt | Some v \<Rightarrow> v)"
| "dict_get v key dflt =
     Inl (Exn AttributeError
            ([39] @ type_name v @ [39] @ py '' object has no attribute '' @
             [39] @ py ''get'' @ [39]))"

text \<open>\<open>data.get('status', {}).get('message', 'Unknown error')\<close>.\<close>

definition status_message :: "pyval \<Rightarrow> exn + pyval" where
  "status_message d =
     (case dict_get d (py ''status'') (PDict []) of
        Inl x \<Rightarrow> Inl x
      | Inr st \<Rightarrow> dict_get st (py ''message'') (PStr (py ''Unknown error'')))"

text \<open>A value inside an f-string.\<close>

fun format_value :: "'c runtime \<Rightarrow> pyval \<Rightarrow> pystr" where
  "format_value rt (PStr s) = s"
| "format_value rt v = py_str rt v"

text \<open>The \<open>except json.JSONDecodeError\<close> clause around the body of \<open>_process_event\<close>.\<close>

definition except_json :: "exn + 'a \<Rightarrow> exn + 'a" where
  "except_json r =
     (case r of
        Inl x \<Rightarrow>
          (if exn_class x = JSONDecodeError
           then Inl (Exn StreamingError (py ''Invalid JSON in SSE: '' @ exn_str x))
           else Inl x)
      | Inr v \<Rightarrow> Inr v)"

text \<open>
  \<open>_process_event\<close>, the same in \<open>StreamingResponse\<close> and
  \<open>AsyncStreamingResponse\<close>: the chunk to yield, \<open>None\<close> for none, or the exception.
\<close>

definition process_event :: "'c runtime \<Rightarrow> SSEEvent \<Rightarrow> exn + 'c option" where
  "process_event rt ev =
     (if \<not> truthy (data ev) then Inr None
      else
        except_json
          (case json_loads rt (the (data ev)) of
             Inl x \<Rightarrow> Inl x
           | Inr d \<Rightarrow>
               (if event ev = Some (py ''error'') then
                  (case status_message d of
                     Inl x \<Rightarrow> Inl x
                   | Inr m \<Rightarrow>
                       Inl (Exn StreamingError (py ''Streaming error: '' @ format_value rt m)))
                else if event ev = Some (py ''result'') then
                  (case make_chunk rt d of Inl x \<Rightarrow> Inl x | Inr c \<Rightarrow> Inr (Some c))
                else if event ev = Some (py ''token'') then
                  (case make_chunk rt d of Inl x \<Rightarrow> Inl x | Inr c \<Rightarrow> Inr (Some c))
                else Inr None)))"

text \<open>
  The inner loop \<open>for event in self.parser.parse(...)\<close>: the chunks yielded, and the
  exception that ends it, if any. A chunk is a pydantic model object, which is always
  truthy, so \<open>if chunk\<close> only tests for \<open>None\<close>.
\<close>

fun process_events :: "'c runtime \<Rightarrow> SSEEvent list \<Rightarrow> 'c list \<times> exn option" where
  "process_events rt [] = ([], None)"
| "process_events rt (ev # evs) =
     (case process_event rt ev of
        Inl x \<Rightarrow> ([], Some x)
      | Inr None \<Rightarrow> process_events rt evs
      | Inr (Some c) \<Rightarrow> (let (cs, r) = process_events rt evs in (c # cs, r)))"

text \<open>
  The body of the \<open>try\<close>: the outer loop over the transport's lines, each non-empty line
  handed to the parser with a blank line appended. The transport gives its lines and
  then either ends (\<open>None\<close>) or raises. The result is what the body yields when it is
  never interrupted, and the exception raised inside the \<open>try\<close>, if any.
\<close>

fun stream_body ::
  "'c runtime \<Rightarrow> SSEParser \<Rightarrow> pystr list \<Rightarrow> exn option \<Rightarrow> 'c list \<times> exn option" where
  "stream_body rt p [] transport_error = ([], transport_error)"
| "stream_body rt p (line # lines) transport_error =
     (if line = [] then stream_body rt p lines transport_error
      else
        (let (evs, p') = parse (py_int rt) p (line @ [NL, NL]);
             (cs, r) = process_events rt evs
         in (case r of
               Some x \<Rightarrow> (cs, Some x)
             | None \<Rightarrow>
                 (let (cs', r') = stream_body rt p' lines transport_error
                  in (cs @ cs', r')))))"

text \<open>
  What the consumer and the transport see of one run of the generator, in order: a chunk
  yielded, the transport response closed (\<open>close\<close>, or \<open>aclose\<close> in the asynchronous
  class), an exception raised to the consumer, or the generator ending normally.
\<close>

datatype 'c gen_event =
    Yield 'c
  | Close
  | RaiseOut exn
  | Stop

text \<open>
  The clauses \<open>except Exception as e: raise StreamingError(...)\<close> and
  \<open>finally: self.response.close()\<close> when the body of the \<open>try\<close> has ended.
\<close>

fun finish :: "exn option \<Rightarrow> 'c gen_event list" where
  "finish None = [Close, Stop]"
| "finish (Some x) =
     [Close, RaiseOut (Exn StreamingError (py ''Error during streaming: '' @ exn_str x))]"

text \<open>
  The consumer either pulls until the generator ends, or pulls \<open>n\<close> times and then
  abandons the generator, which closes it (\<open>generator.close()\<close>, called by the consumer
  or when the generator is finalized).
\<close>

datatype consumer =
    Exhaust
  | Abandon nat

text \<open>
  Python's generator protocol on the body above. A generator that was never advanced
  has not entered the \<open>try\<close>: closing it runs nothing. Closing a generator suspended at
  a \<open>yield\<close> raises \<open>GeneratorExit\<close> there, which \<open>except Exception\<close> does not catch
  and \<open>finally\<close> does see. A generator whose body has ended is not affected by a later
  \<open>close\<close>.
\<close>

fun run_generator :: "'c list \<times> exn option \<Rightarrow> consumer \<Rightarrow> 'c gen_event list" where
  "run_generator (cs, r) Exhaust = map Yield cs @ finish r"
| "run_generator (cs, r) (Abandon n) =
     (if n = 0 then []
      else if n \<le> length cs then map Yield (take n cs) @ [Close]
      else map Yield cs @ finish r)"

definition stream_from ::
  "'c runtime \<Rightarrow> SSEParser \<Rightarrow> pystr list \<Rightarrow> exn option \<Rightarrow> consumer \<Rightarrow> 'c gen_event list" where
  "stream_from rt p lines transport_error c =
     run_generator (stream_body rt p lines transport_error) c"

text \<open>\<open>StreamingResponse.__iter__\<close>, on the new parser of \<open>__init__\<close>.\<close>

definition StreamingResponse_iter ::
  "'c runtime \<Rightarrow> pystr list \<Rightarrow> exn option \<Rightarrow> consumer \<Rightarrow> 'c gen_event list" where
  "StreamingResponse_iter rt lines transport_error c =
     stream_from rt new_parser lines transport_error c"

text \<open>
  \<open>AsyncStreamingResponse.__aiter__\<close>: the same statements, with
  \<open>async for\<close> over \<open>aiter_lines\<close> and \<open>await self.response.aclose()\<close>.
\<close>

definition AsyncStreamingResponse_aiter ::
  "'c runtime \<Rightarrow> pystr list \<Rightarrow> exn option \<Rightarrow> consumer \<Rightarrow> 'c gen_event list" where
  "AsyncStreamingResponse_aiter rt lines transport_error c =
     stream_from rt new_parser lines transport_error c"

fun started :: "consumer \<Rightarrow> bool" where
  "started Exhaust = True"
| "started (Abandon n) = (0 < n)"

definition n_closes :: "'c gen_event list \<Rightarrow> nat" where
  "n_closes tr = length (filter (\<lambda>e. e = Close) tr)"

subsection \<open>A stream used below\<close>

text \<open>
  The JSON text \<open>{"status":{"message":"rate limited"}}\<close> (code point 34 is the
  double quote) and the value \<open>json.loads\<close> gives for it.
\<close>

definition dq :: "pystr \<Rightarrow> pystr" where
  "dq s = [34] @ s @ [34]"

definition error_body :: pystr where
  "error_body =
     py ''{'' @ dq (py ''status'') @ py '':{'' @ dq (py ''message'') @ py '':'' @
     dq (py ''rate limited'') @ py ''}}''"

definition error_json :: pyval where
  "error_json = PDict [(py ''status'', PDict [(py ''message'', PStr (py ''rate limited''))])]"

text \<open>
  A runtime that decodes this text and \<open>{}\<close>, refuses every other text as
  \<open>json.loads\<close> refuses malformed input, and takes every decoded value for a chunk.
\<close>

definition demo_runtime :: "pyval runtime" where
  "demo_runtime =
     \<lparr>py_int = (\<lambda>s. None),
      json_loads = (\<lambda>s. if s = error_body then Inr error_json
                         else if s = py ''{}'' then Inr (PDict [])
                         else Inl (Exn JSONDecodeError (py ''Expecting value''))),
      make_chunk = (\<lambda>v. Inr v),
      py_str = (\<lambda>v. [])\<rparr>"

definition token_frame :: SSEEvent where
  "token_frame = \<lparr>event_id = None, event = Some (py ''token''), data = Some (py ''{}''), retry = None\<rparr>"

definition error_frame :: SSEEvent where
  "error_frame = \<lparr>event_id = None, event = Some (py ''error''), data = Some error_body, retry = None\<rparr>"

text \<open>
  Three blocks handed over by the transport as one line: a token event, the error event
  and another token event, with newlines inside the line.
\<close>

definition demo_line :: pystr where
  "demo_line =
     py ''event: token'' @ [NL] @ py ''data: {}'' @ [NL, NL] @
     py ''event: error'' @ [NL] @ py ''data: '' @ error_body @ [NL, NL] @
     py ''event: token'' @ [NL] @ py ''data: {}''"

subsection \<open>An error event as the transport delivers it\<close>

text \<open>
  The JSON text \<open>{"status":{"code":"42901","message":"rate limited"}}\<close>, the value
  \<open>json.loads\<close> gives for it, and the lines \<open>iter_lines\<close> yields for the event
  \<open>event: error\<close> with this data: the event line, the data line and the blank line.
\<close>

definition wire_error_body :: pystr where
  "wire_error_body =
     py ''{'' @ dq (py ''status'') @ py '':{'' @ dq (py ''code'') @ py '':'' @
     dq (py ''42901'') @ py '','' @ dq (py ''message'') @ py '':'' @
     dq (py ''rate limited'') @ py ''}}''"

definition wire_error_json :: pyval where
  "wire_error_json =
     PDict [(py ''status'',
             PDict [(py ''code'', PStr (py ''42901'')),
                    (py ''message'', PStr (py ''rate limited''))])]"

definition wire_error_lines :: "pystr list" where
  "wire_error_lines = [py ''event: error'', py ''data: '' @ wire_error_body, []]"

text \<open>The same event as one block, and the frame \<open>_parse_event\<close> makes of the block.\<close>

definition wire_error_block :: pystr where
  "wire_error_block = py ''event: error'' @ [NL] @ py ''data: '' @ wire_error_body"

definition wire_error_frame :: SSEEvent where
  "wire_error_frame =
     \<lparr>event_id = None, event = Some (py ''error''), data = Some wire_error_body, retry = None\<rparr>"

text \<open>
  A runtime whose \<open>json.loads\<close> decodes this text; everything else about it is
  left open.
\<close>

definition wire_runtime ::
  "(pystr \<Rightarrow> int option) \<Rightarrow> (pystr \<Rightarrow> exn + pyval) \<Rightarrow> (pyval \<Rightarrow> exn + 'c) \<Rightarrow>
   (pyval \<Rightarrow> pystr) \<Rightarrow> 'c runtime" where
  "wire_runtime int_of loads mk str_of =
     \<lparr>py_int = int_of,
      json_loads = (\<lambda>s. if s = wire_error_body then Inr wire_error_json else loads s),
      make_chunk = mk,
      py_str = str_of\<rparr>"

section \<open>String literals\<close>

lemma py_eq_iff [simp]: "py s = py t \<longleftrightarrow> s = t"
proof -
  have "inj (of_char :: char \<Rightarrow> nat)"
    by (rule injI) simp
  then show ?thesis
    unfolding py_def by (rule inj_map_eq_map)
qed

lemma py_Nil_iff [simp]: "py s = [] \<longleftrightarrow> s = []" "[] = py s \<longleftrightarrow> s = []"
  by (auto simp add: py_def)

section \<open>Properties of the SSE frame parser\<close>

lemma split_nn_append:
  "split_nn a = Some (x, r) \<Longrightarrow> split_nn (a @ b) = Some (x, r @ b)"
proof (induction a arbitrary: x rule: split_nn.induct)
  case (1 c d cs)
  then show ?case
    by (auto split: if_splits option.splits)
qed simp_all

lemma parse_loop_append:
  "parse_loop f (a @ b) =
     (let (evs, r) = parse_loop f a; (evs', r') = parse_loop f (r @ b)
      in (evs @ evs', r'))"
proof (induction f a rule: parse_loop.induct)
  case (1 f buf)
  show ?case
  proof (cases "split_nn buf")
    case None
    then show ?thesis
      by (simp add: parse_loop.simps [of f buf] split: prod.splits)
  next
    case (Some xr)
    obtain x r where xr: "xr = (x, r)" by (cases xr)
    have sp: "split_nn (buf @ b) = Some (x, r @ b)"
      using Some xr by (simp add: split_nn_append)
    have ih: "parse_loop f (r @ b) =
        (let (evs, r0) = parse_loop f r; (evs', r') = parse_loop f (r0 @ b)
         in (evs @ evs', r'))"
      using 1 Some xr by simp
    show ?thesis
      using Some xr sp ih
      by (simp add: parse_loop.simps [of f buf] parse_loop.simps [of f "buf @ b"]
          split: prod.splits option.splits)
  qed
qed

lemma parse_loop_None: "split_nn buf = None \<Longrightarrow> parse_loop f buf = ([], buf)"
  by (simp add: parse_loop.simps [of f buf])

lemma parse_loop_Some:
  "split_nn buf = Some (x, r) \<Longrightarrow>
   parse_loop f buf =
     (case parse_event f x of
        None \<Rightarrow> parse_loop f r
      | Some e \<Rightarrow> (e # fst (parse_loop f r), snd (parse_loop f r)))"
  by (simp add: parse_loop.simps [of f buf] split: prod.splits option.splits)

text \<open>After a \<open>parse\<close> call the buffer never holds a complete block.\<close>

lemma parse_loop_rest: "split_nn (snd (parse_loop f buf)) = None"
proof (induction f buf rule: parse_loop.induct)
  case (1 f buf)
  show ?case
  proof (cases "split_nn buf")
    case None
    then show ?thesis by (simp add: parse_loop_None)
  next
    case (Some xr)
    obtain x r where xr: "xr = (x, r)" by (cases xr)
    have "split_nn (snd (parse_loop f r)) = None"
      using 1 Some xr by simp
    then show ?thesis
      using Some xr by (simp add: parse_loop_Some split: option.splits)
  qed
qed

lemma parse_rest: "split_nn (buffer (snd (parse f p c))) = None"
  using parse_loop_rest [of f "buffer p @ c"]
  by (auto simp add: parse_def split: prod.splits)

lemma feed_concat:
  "split_nn (buffer p) = None \<Longrightarrow> feed f p chunks = parse f p (concat chunks)"
proof (induction chunks arbitrary: p)
  case Nil
  then show ?case by (simp add: parse_def parse_loop_None)
next
  case (Cons c cs)
  have r: "split_nn (buffer (snd (parse f p c))) = None"
    by (rule parse_rest)
  have ih: "feed f (snd (parse f p c)) cs = parse f (snd (parse f p c)) (concat cs)"
    using Cons.IH [OF r] .
  show ?case
    using ih parse_loop_append [of f "buffer p @ c" "concat cs"]
    by (auto simp add: parse_def split: prod.splits)
qed

lemma feed_cut:
  "split_nn (buffer p) = None \<Longrightarrow> feed f p [take k s, drop k s] = parse f p s"
  using feed_concat [of p f "[take k s, drop k s]"] by simp

text \<open>A block that holds no blank line and does not end in a newline is cut off whole.\<close>

lemma split_nn_complete:
  "split_nn b = None \<Longrightarrow> b = [] \<or> last b \<noteq> NL \<Longrightarrow>
   split_nn (b @ NL # NL # r) = Some (b, r)"
proof (induction b rule: split_nn.induct)
  case (1 c d cs)
  then show ?case by (auto split: if_splits option.splits)
qed simp_all

lemma parse_one_frame:
  assumes "split_nn b = None" and "b = [] \<or> last b \<noteq> NL" and "parse_event f b = Some e"
  shows "parse f new_parser (b @ [NL, NL]) = ([e], new_parser)"
proof -
  have "split_nn (b @ NL # NL # []) = Some (b, [])"
    using assms(1,2) by (rule split_nn_complete)
  then show ?thesis
    using assms(3) by (simp add: parse_def new_parser_def parse_loop_Some parse_loop_None)
qed

lemma parse_two_frames:
  assumes "split_nn b1 = None" and "b1 = [] \<or> last b1 \<noteq> NL" and "parse_event f b1 = Some e1"
    and "split_nn b2 = None" and "b2 = [] \<or> last b2 \<noteq> NL" and "parse_event f b2 = Some e2"
  shows "parse f new_parser (b1 @ [NL, NL] @ b2 @ [NL, NL]) = ([e1, e2], new_parser)"
proof -
  have s1: "split_nn (b1 @ NL # NL # (b2 @ [NL, NL])) = Some (b1, b2 @ [NL, NL])"
    using assms(1,2) by (rule split_nn_complete)
  have s2: "split_nn (b2 @ NL # NL # []) = Some (b2, [])"
    using assms(4,5) by (rule split_nn_complete)
  have l2: "parse_loop f (b2 @ [NL, NL]) = ([e2], [])"
    using s2 assms(6) by (simp add: parse_loop_Some parse_loop_None)
  show ?thesis
    using s1 l2 assms(3) by (simp add: parse_def new_parser_def parse_loop_Some)
qed

text \<open>
  C1. Feeding any sequence of text chunks to one parser, one \<open>parse\<close> call per chunk,
  yields the same frames in the same order (and leaves the same buffer) as one
  \<open>parse\<close> call on their concatenation. The parser is in a state it can reach: its
  buffer holds no complete block, as in a new parser and after every \<open>parse\<close> call.
  In particular a text cut in two at any position \<open>k\<close> gives what the uncut text
  gives; a complete frame cut in two at any position gives exactly that one frame; and
  one chunk holding two complete frames back to back gives both, in order, from one
  \<open>parse\<close> call.
\<close>

theorem sse_parser_chunking:
  assumes "split_nn (buffer p) = None"
  shows "feed f p chunks = parse f p (concat chunks) \<and>
         feed f p [take k s, drop k s] = parse f p s \<and>
         (split_nn b1 = None \<and> (b1 = [] \<or> last b1 \<noteq> NL) \<and> parse_event f b1 = Some e1 \<and>
          split_nn b2 = None \<and> (b2 = [] \<or> last b2 \<noteq> NL) \<and> parse_event f b2 = Some e2 \<longrightarrow>
            fst (feed f new_parser [take k (b1 @ [NL, NL]), drop k (b1 @ [NL, NL])]) = [e1] \<and>
            fst (parse f new_parser (b1 @ [NL, NL] @ b2 @ [NL, NL])) = [e1, e2])"
proof (intro conjI impI)
  show "feed f p chunks = parse f p (concat chunks)"
    using assms by (rule feed_concat)
next
  show "feed f p [take k s, drop k s] = parse f p s"
    using assms by (rule feed_cut)
next
  assume a: "split_nn b1 = None \<and> (b1 = [] \<or> last b1 \<noteq> NL) \<and> parse_event f b1 = Some e1 \<and>
      split_nn b2 = None \<and> (b2 = [] \<or> last b2 \<noteq> NL) \<and> parse_event f b2 = Some e2"
  have n: "split_nn (buffer new_parser) = None"
    by (simp add: new_parser_def)
  have "feed f new_parser [take k (b1 @ [NL, NL]), drop k (b1 @ [NL, NL])] =
      parse f new_parser (b1 @ [NL, NL])"
    using n by (rule feed_cut)
  moreover have "parse f new_parser (b1 @ [NL, NL]) = ([e1], new_parser)"
    using a parse_one_frame [of b1 f e1] by simp
  ultimately show "fst (feed f new_parser [take k (b1 @ [NL, NL]), drop k (b1 @ [NL, NL])]) = [e1]"
    by (simp only: fst_conv)
next
  assume a: "split_nn b1 = None \<and> (b1 = [] \<or> last b1 \<noteq> NL) \<and> parse_event f b1 = Some e1 \<and>
      split_nn b2 = None \<and> (b2 = [] \<or> last b2 \<noteq> NL) \<and> parse_event f b2 = Some e2"
  then show "fst (parse f new_parser (b1 @ [NL, NL] @ b2 @ [NL, NL])) = [e1, e2]"
    using parse_two_frames [of b1 f e1 b2 e2] by simp
qed

lemmas sse_eval = py_def NL_def COLON_def parse_event_def parse_line_def strip_def lstrip_def
  py_isspace_def empty_event_def new_parser_def

theorem sse_parser_chunking_witness:
  "split_nn (buffer new_parser) = None \<and>
   fst (feed (\<lambda>s. None) new_parser [py ''dat'', py ''a: a'' @ [NL], [NL]]) =
     [\<lparr>event_id = None, event = None, data = Some (py ''a''), retry = None\<rparr>] \<and>
   fst (parse (\<lambda>s. None) new_parser
        (py ''data: a'' @ [NL, NL] @ (py ''event: token'' @ [NL] @ py ''data: b'') @ [NL, NL])) =
     [\<lparr>event_id = None, event = None, data = Some (py ''a''), retry = None\<rparr>,
      \<lparr>event_id = None, event = Some (py ''token''), data = Some (py ''b''), retry = None\<rparr>]"
proof -
  let ?f = "\<lambda>s::pystr. None::int option"
  let ?b1 = "py ''data: a''"
  let ?b2 = "py ''event: token'' @ [NL] @ py ''data: b''"
  let ?e1 = "\<lparr>event_id = None, event = None, data = Some (py ''a''), retry = None\<rparr>"
  let ?e2 = "\<lparr>event_id = None, event = Some (py ''token''), data = Some (py ''b''), retry = None\<rparr>"
  have h: "split_nn (buffer new_parser) = None"
    by (simp add: new_parser_def)
  have b1: "split_nn ?b1 = None \<and> (?b1 = [] \<or> last ?b1 \<noteq> NL)"
    by (simp add: py_def NL_def)
  have b2: "split_nn ?b2 = None \<and> (?b2 = [] \<or> last ?b2 \<noteq> NL)"
    by (simp add: py_def NL_def)
  have e1: "parse_event ?f ?b1 = Some ?e1"
    by (simp add: sse_eval)
  have e2: "parse_event ?f ?b2 = Some ?e2"
    by (simp add: sse_eval)
  have c: "[take 3 (?b1 @ [NL, NL]), drop 3 (?b1 @ [NL, NL])] = [py ''dat'', py ''a: a'' @ [NL, NL]]"
    by (simp add: py_def)
  have d: "concat [py ''dat'', py ''a: a'' @ [NL], [NL]] = concat [py ''dat'', py ''a: a'' @ [NL, NL]]"
    by simp
  note t = sse_parser_chunking [OF h, of ?f _ 3 _ ?b1 ?e1 ?b2 ?e2]
  have t1: "feed ?f new_parser [py ''dat'', py ''a: a'' @ [NL], [NL]] =
      feed ?f new_parser [py ''dat'', py ''a: a'' @ [NL, NL]]"
    using t [of "[py ''dat'', py ''a: a'' @ [NL], [NL]]"] t [of "[py ''dat'', py ''a: a'' @ [NL, NL]]"]
    by (simp only: d)
  show ?thesis
    using h b1 b2 e1 e2 t [of "[]" "[]"] t1 unfolding c by simp
qed

section \<open>The data field decides whether a frame is emitted\<close>

lemma data_parse_line:
  "data (parse_line f ev l) = (if is_data_line l then Some (data_value l) else data ev)"
  by (auto simp add: parse_line_def is_data_line_def data_value_def py_def Let_def
      split: option.splits)

lemma data_foldl_parse_line:
  "data (foldl (parse_line f) ev ls) =
     (if filter is_data_line ls = [] then data ev
      else Some (data_value (last (filter is_data_line ls))))"
proof (induction ls arbitrary: ev)
  case Nil
  show ?case by simp
next
  case (Cons l ls)
  show ?case
    by (simp add: Cons.IH data_parse_line)
qed

lemma strip_Nil: "strip s = [] \<longleftrightarrow> (\<forall>c\<in>set s. py_isspace c)"
proof
  assume "strip s = []"
  then have "dropWhile py_isspace (rev (dropWhile py_isspace s)) = []"
    by (simp add: strip_def)
  then have a: "\<forall>c\<in>set (dropWhile py_isspace s). py_isspace c"
    using dropWhile_eq_Nil_conv [of py_isspace "rev (dropWhile py_isspace s)"] by simp
  have "dropWhile py_isspace s = []"
  proof (cases "dropWhile py_isspace s")
    case Nil
    then show ?thesis .
  next
    case (Cons x xs)
    then have "\<not> py_isspace x"
      using hd_dropWhile [of py_isspace s] by simp
    then show ?thesis
      using a Cons by simp
  qed
  then show "\<forall>c\<in>set s. py_isspace c"
    using dropWhile_eq_Nil_conv [of py_isspace s] by blast
next
  assume "\<forall>c\<in>set s. py_isspace c"
  then have "dropWhile py_isspace s = []"
    using dropWhile_eq_Nil_conv [of py_isspace s] by blast
  then show "strip s = []"
    by (auto simp add: strip_def dest: set_dropWhileD)
qed

lemma split_on_not_Nil: "split_on sep s \<noteq> []"
  by (induction s) (auto split: list.splits)

lemma set_concat_split_on: "set (concat (split_on sep s)) \<subseteq> set s"
proof (induction s)
  case Nil
  show ?case by simp
next
  case (Cons c cs)
  show ?case
  proof (cases "split_on sep cs")
    case Nil
    then show ?thesis by simp
  next
    case (Cons w ws)
    then have "set w \<subseteq> set cs" and "\<Union> (set ` set ws) \<subseteq> set cs"
      using Cons.IH by simp_all
    then show ?thesis
      using Cons by auto
  qed
qed

lemma set_split_on: "l \<in> set (split_on sep s) \<Longrightarrow> set l \<subseteq> set s"
  using set_concat_split_on [of sep s] by auto

lemma data_line_not_blank: "is_data_line l \<Longrightarrow> \<exists>c\<in>set l. \<not> py_isspace c"
proof -
  assume a: "is_data_line l"
  then have "100 \<in> set (takeWhile (\<lambda>c. c \<noteq> COLON) l)"
    by (simp add: is_data_line_def py_def)
  then have "100 \<in> set l"
    by (rule set_takeWhileD [THEN conjunct1])
  moreover have "\<not> py_isspace 100"
    by (simp add: py_isspace_def)
  ultimately show ?thesis by blast
qed

lemma blank_no_data_lines: "strip block = [] \<Longrightarrow> data_lines block = []"
proof -
  assume "strip block = []"
  then have b: "\<forall>c\<in>set block. py_isspace c"
    by (simp add: strip_Nil)
  show ?thesis
    unfolding data_lines_def filter_empty_conv
  proof
    fix l assume l: "l \<in> set (split_on NL block)"
    show "\<not> is_data_line l"
    proof
      assume "is_data_line l"
      then obtain c where "c \<in> set l" "\<not> py_isspace c"
        using data_line_not_blank by blast
      then show False
        using set_split_on [OF l] b by blast
    qed
  qed
qed

lemma parse_event_data:
  "parse_event f block =
     (if data_lines block = [] \<or> data_value (last (data_lines block)) = [] then None
      else Some (foldl (parse_line f) empty_event (split_on NL block)))"
proof (cases "strip block = []")
  case True
  then show ?thesis
    by (simp add: parse_event_def blank_no_data_lines)
next
  case False
  then show ?thesis
    by (simp add: parse_event_def Let_def data_foldl_parse_line data_lines_def empty_event_def)
qed

text \<open>
  C6, as amended. For every raw event block, \<open>_parse_event\<close> emits a frame if and
  only if the block has a data field and the value of its last data field, left-stripped,
  is not empty; the frame then carries that value. In particular a block with no data
  field, a blank or whitespace-only block, and a block of field-less lines (no colon in
  any line) yield no frame.
\<close>

theorem parse_event_emits_iff_data_nonempty:
  "(parse_event f block \<noteq> None \<longleftrightarrow>
      data_lines block \<noteq> [] \<and> data_value (last (data_lines block)) \<noteq> []) \<and>
   (\<forall>e. parse_event f block = Some e \<longrightarrow>
      data e = Some (data_value (last (data_lines block)))) \<and>
   (data_lines block = [] \<longrightarrow> parse_event f block = None) \<and>
   (strip block = [] \<longrightarrow> parse_event f block = None) \<and>
   ((\<forall>line\<in>set (split_on NL block). COLON \<notin> set line) \<longrightarrow> parse_event f block = None)"
proof (intro conjI allI impI)
  show "parse_event f block \<noteq> None \<longleftrightarrow>
      data_lines block \<noteq> [] \<and> data_value (last (data_lines block)) \<noteq> []"
    by (simp add: parse_event_data)
next
  fix e assume "parse_event f block = Some e"
  then show "data e = Some (data_value (last (data_lines block)))"
    by (auto simp add: parse_event_data data_foldl_parse_line data_lines_def split: if_splits)
next
  assume "data_lines block = []"
  then show "parse_event f block = None"
    by (simp add: parse_event_data)
next
  assume "strip block = []"
  then show "parse_event f block = None"
    by (simp add: parse_event_def)
next
  assume "\<forall>line\<in>set (split_on NL block). COLON \<notin> set line"
  then have "data_lines block = []"
    by (simp add: data_lines_def filter_empty_conv is_data_line_def)
  then show "parse_event f block = None"
    by (simp add: parse_event_data)
qed

lemmas sse_eval2 = sse_eval is_data_line_def data_lines_def data_value_def

theorem parse_event_emits_iff_data_nonempty_witness:
  "parse_event (\<lambda>s. None) (py ''event: token'' @ [NL] @ py ''data: hi'') \<noteq> None \<and>
   data_value (last (data_lines (py ''event: token'' @ [NL] @ py ''data: hi''))) = py ''hi'' \<and>
   data_lines (py ''event: token'') = [] \<and>
   parse_event (\<lambda>s. None) (py ''event: token'') = None \<and>
   strip [32, NL, 9] = [] \<and>
   parse_event (\<lambda>s. None) [32, NL, 9] = None"
proof -
  let ?f = "\<lambda>s::pystr. None::int option"
  let ?b = "py ''event: token'' @ [NL] @ py ''data: hi''"
  have v: "data_value (last (data_lines ?b)) = py ''hi''"
    by (simp add: sse_eval2)
  have n: "data_lines (py ''event: token'') = []"
    by (simp add: sse_eval2)
  have s: "strip [32, NL, 9] = []"
    by (simp add: sse_eval2)
  note t = parse_event_emits_iff_data_nonempty
  have dv: "data_lines ?b \<noteq> [] \<and> data_value (last (data_lines ?b)) \<noteq> []"
    by (simp add: sse_eval2)
  have 1: "parse_event ?f ?b \<noteq> None"
    using t [of ?f ?b, THEN conjunct1] dv by blast
  have 2: "parse_event ?f (py ''event: token'') = None"
    using t [of ?f "py ''event: token''", THEN conjunct2, THEN conjunct2, THEN conjunct1] n
    by simp
  have 3: "parse_event ?f [32, NL, 9] = None"
    using t [of ?f "[32, NL, 9]", THEN conjunct2, THEN conjunct2, THEN conjunct2, THEN conjunct1] s
    by simp
  show ?thesis
    using 1 2 3 n s v by blast
qed

text \<open>
  C6 as first stated fails: the block \<open>data:\<close> has a data field, with an
  empty value, and no frame is emitted for it.
\<close>

theorem parse_event_empty_data_counterexample:
  "data_lines (py ''data:'') \<noteq> [] \<and> parse_event (\<lambda>s. None) (py ''data:'') = None"
  by (simp add: sse_eval2)

section \<open>The capability validator\<close>

lemmas cap_eval = validate_model_capability_def model_caps_def capabilities_def known_features_def py_def

text \<open>
  C7, as amended. For every model name and each of the four features the validator
  knows (thinking, vision, structured_output, function_calling), the validator fails
  exactly when the feature is not in the capability table's entry for the model, an
  unknown model having the empty entry; a feature name outside these four is accepted
  for every model. The table is HCX-005: vision, function_calling; HCX-007: thinking,
  structured_output, function_calling; HCX-DASH-002: function_calling.
\<close>

theorem validate_model_capability_table:
  "(feature \<in> set known_features \<longrightarrow>
      (isl (validate_model_capability m feature) \<longleftrightarrow> feature \<notin> set (model_caps m))) \<and>
   (feature \<notin> set known_features \<longrightarrow> validate_model_capability m feature = Inr ()) \<and>
   model_caps (py ''HCX-005'') = [py ''vision'', py ''function_calling''] \<and>
   model_caps (py ''HCX-007'') = [py ''thinking'', py ''structured_output'', py ''function_calling''] \<and>
   model_caps (py ''HCX-DASH-002'') = [py ''function_calling''] \<and>
   (m \<notin> {py ''HCX-005'', py ''HCX-007'', py ''HCX-DASH-002''} \<longrightarrow> model_caps m = [])"
proof (intro conjI impI)
  assume "feature \<in> set known_features"
  then show "isl (validate_model_capability m feature) \<longleftrightarrow> feature \<notin> set (model_caps m)"
    by (auto simp add: validate_model_capability_def known_features_def py_def)
next
  assume "feature \<notin> set known_features"
  then show "validate_model_capability m feature = Inr ()"
    by (simp add: validate_model_capability_def known_features_def)
next
  show "model_caps (py ''HCX-005'') = [py ''vision'', py ''function_calling'']"
    by (simp add: model_caps_def capabilities_def py_def)
next
  show "model_caps (py ''HCX-007'') = [py ''thinking'', py ''structured_output'', py ''function_calling'']"
    by (simp add: model_caps_def capabilities_def py_def)
next
  show "model_caps (py ''HCX-DASH-002'') = [py ''function_calling'']"
    by (simp add: model_caps_def capabilities_def py_def)
next
  assume "m \<notin> {py ''HCX-005'', py ''HCX-007'', py ''HCX-DASH-002''}"
  then show "model_caps m = []"
    by (simp add: model_caps_def capabilities_def)
qed

text \<open>
  C7 as first stated fails: \<open>audio\<close> is not in the entry of HCX-005, and
  the validator accepts the pair.
\<close>

theorem validate_unknown_feature_counterexample:
  "py ''audio'' \<notin> set (model_caps (py ''HCX-005'')) \<and>
   validate_model_capability (py ''HCX-005'') (py ''audio'') = Inr ()"
  by (simp add: cap_eval)

theorem validate_model_capability_table_witness:
  "py ''vision'' \<in> set known_features \<and>
   py ''vision'' \<notin> set (model_caps (py ''HCX-007'')) \<and>
   isl (validate_model_capability (py ''HCX-007'') (py ''vision'')) \<and>
   py ''thinking'' \<in> set (model_caps (py ''HCX-007'')) \<and>
   \<not> isl (validate_model_capability (py ''HCX-007'') (py ''thinking'')) \<and>
   py ''audio'' \<notin> set known_features \<and>
   validate_model_capability (py ''HCX-007'') (py ''audio'') = Inr () \<and>
   model_caps (py ''GPT-4'') = []"
proof -
  note t = validate_model_capability_table
  have k: "py ''vision'' \<in> set known_features" "py ''thinking'' \<in> set known_features"
    "py ''audio'' \<notin> set known_features"
    by (simp_all add: known_features_def py_def)
  have c: "py ''vision'' \<notin> set (model_caps (py ''HCX-007''))"
    "py ''thinking'' \<in> set (model_caps (py ''HCX-007''))"
    by (simp_all add: model_caps_def capabilities_def py_def)
  have g: "py ''GPT-4'' \<notin> {py ''HCX-005'', py ''HCX-007'', py ''HCX-DASH-002''}"
    by (simp add: py_def)
  have 1: "isl (validate_model_capability (py ''HCX-007'') (py ''vision''))"
    using t [of "py ''vision''" "py ''HCX-007''", THEN conjunct1] k c by blast
  have 2: "\<not> isl (validate_model_capability (py ''HCX-007'') (py ''thinking''))"
    using t [of "py ''thinking''" "py ''HCX-007''", THEN conjunct1] k c by blast
  have 3: "validate_model_capability (py ''HCX-007'') (py ''audio'') = Inr ()"
    using t [of "py ''audio''" "py ''HCX-007''", THEN conjunct2, THEN conjunct1] k by blast
  have 4: "model_caps (py ''GPT-4'') = []"
    using t [of "py ''audio''" "py ''GPT-4''"] g by blast
  show ?thesis
    using k c 1 2 3 4 by blast
qed

section \<open>Message content items that are passed over\<close>

lemma prepare_item_dropped: "dropped i \<Longrightarrow> prepare_item i = Inr None"
  by (cases i) (auto simp add: Let_def)

lemma prepare_item_kept: "\<not> dropped i \<Longrightarrow> prepare_item i \<noteq> Inr None"
  by (cases i) (auto simp add: Let_def split: sum.splits)

lemma prepare_items_filter:
  "prepare_items (filter (\<lambda>i. \<not> dropped i) items) = prepare_items items"
  by (induction items) (simp_all add: prepare_item_dropped split: sum.splits)

lemma prepare_items_all_dropped:
  "\<forall>i\<in>set items. dropped i \<Longrightarrow> prepare_items items = Inr []"
  by (induction items) (simp_all add: prepare_item_dropped)

lemma prepare_items_length:
  "prepare_items items = Inr out \<Longrightarrow> length out = length (filter (\<lambda>i. \<not> dropped i) items)"
proof (induction items arbitrary: out)
  case Nil
  then show ?case by simp
next
  case (Cons i items)
  show ?case
  proof (cases "dropped i")
    case True
    then show ?thesis
      using Cons by (simp add: prepare_item_dropped split: sum.splits)
  next
    case False
    then show ?thesis
      using Cons prepare_item_kept [OF False]
      by (auto split: sum.splits option.splits)
  qed
qed

text \<open>
  C10. For list content, \<open>prepare_message_content\<close> passes over every item that is
  not a dict whose \<open>type\<close> is \<open>text\<close> or \<open>image_url\<close>, and over every \<open>image_url\<close>
  item with neither an \<open>image_url\<close> nor a \<open>data_uri\<close> source: such an item appends
  nothing and raises nothing, the result (error or list) is the one the list without
  these items gives, and a list of only such items gives the empty list. The returned
  list has one entry per item that is not passed over, so it may be shorter than the
  input. (An item that is kept may still raise: a \<open>text\<close> item without a \<open>text\<close> key
  is a \<open>KeyError\<close>.)
\<close>

theorem prepare_message_content_drops:
  "(dropped i \<longrightarrow> prepare_item i = Inr None) \<and>
   prepare_message_content (PList (filter (\<lambda>i. \<not> dropped i) items)) =
     prepare_message_content (PList items) \<and>
   ((\<forall>i\<in>set items. dropped i) \<longrightarrow> prepare_message_content (PList items) = Inr (PList [])) \<and>
   (prepare_message_content (PList items) = Inr (PList out) \<longrightarrow>
      length out = length (filter (\<lambda>i. \<not> dropped i) items) \<and> length out \<le> length items)"
proof (intro conjI impI)
  assume "dropped i"
  then show "prepare_item i = Inr None" by (rule prepare_item_dropped)
next
  show "prepare_message_content (PList (filter (\<lambda>i. \<not> dropped i) items)) =
     prepare_message_content (PList items)"
    by (simp add: prepare_items_filter)
next
  assume "\<forall>i\<in>set items. dropped i"
  then show "prepare_message_content (PList items) = Inr (PList [])"
    by (simp add: prepare_items_all_dropped)
next
  assume a: "prepare_message_content (PList items) = Inr (PList out)"
  then have "prepare_items items = Inr out"
    by (simp split: sum.splits)
  then show "length out = length (filter (\<lambda>i. \<not> dropped i) items)"
    by (rule prepare_items_length)
  then show "length out \<le> length items"
    by simp
qed

theorem prepare_message_content_drops_witness:
  "dropped (PStr (py ''hello'')) \<and>
   dropped (PDict [(py ''type'', PStr (py ''audio''))]) \<and>
   dropped (PDict [(py ''type'', PStr (py ''image_url''))]) \<and>
   prepare_message_content
     (PList [PStr (py ''hello''),
             PDict [(py ''type'', PStr (py ''text'')), (py ''text'', PStr (py ''hi''))],
             PDict [(py ''type'', PStr (py ''audio''))],
             PDict [(py ''type'', PStr (py ''image_url''))]]) =
     Inr (PList [PDict [(py ''type'', PStr (py ''text'')), (py ''text'', PStr (py ''hi''))]]) \<and>
   prepare_message_content
     (PList [PStr (py ''hello''), PDict [(py ''type'', PStr (py ''image_url''))]]) =
     Inr (PList [])"
proof -
  let ?t = "PDict [(py ''type'', PStr (py ''text'')), (py ''text'', PStr (py ''hi''))]"
  let ?xs = "[PStr (py ''hello''), ?t, PDict [(py ''type'', PStr (py ''audio''))],
              PDict [(py ''type'', PStr (py ''image_url''))]]"
  let ?ys = "[PStr (py ''hello''), PDict [(py ''type'', PStr (py ''image_url''))]]"
  note t = prepare_message_content_drops
  have d: "dropped (PStr (py ''hello''))" "dropped (PDict [(py ''type'', PStr (py ''audio''))])"
    "dropped (PDict [(py ''type'', PStr (py ''image_url''))])" "\<not> dropped ?t"
    by simp_all
  have f: "filter (\<lambda>i. \<not> dropped i) ?xs = [?t]"
    using d by simp
  have k: "prepare_message_content (PList [?t]) = Inr (PList [?t])"
    by simp
  have 1: "prepare_message_content (PList ?xs) = Inr (PList [?t])"
    using t [of _ ?xs, THEN conjunct2, THEN conjunct1] k unfolding f by simp
  have a: "\<forall>i\<in>set ?ys. dropped i"
    using d by simp
  have 2: "prepare_message_content (PList ?ys) = Inr (PList [])"
    using t [of _ ?ys, THEN conjunct2, THEN conjunct2, THEN conjunct1] a by blast
  show ?thesis
    using d 1 2 by blast
qed

lemma prepare_text_item_without_text:
  "prepare_message_content (PList [PDict [(py ''type'', PStr (py ''text''))]]) = Inl (KeyError (py ''text''))"
  by simp

section \<open>Token limits of the built request\<close>

lemma get_max_tokens_valid:
  "valid_effort e \<Longrightarrow>
   get_max_tokens (py ''HCX-007'') (Some e) = spec_completion_limit None (Some e)"
  by (auto simp add: valid_effort_def get_max_tokens_def effort_defaults_def
      spec_completion_limit_def)

lemma ChatCompletionRequest_Inr:
  "ChatCompletionRequest ok rd = Inr req \<Longrightarrow>
   req_max_tokens req = rd_maxTokens rd \<and>
   req_max_completion_tokens req = rd_maxCompletionTokens rd \<and>
   (\<forall>t. rd_thinking rd = Some t \<longrightarrow> valid_effort (thinking_effort t))"
  by (auto simp add: ChatCompletionRequest_def split: if_splits option.splits)

lemma thinking_param_effort:
  "thinking_param m (Some t) rf = Some t' \<Longrightarrow> thinking_effort t' = thinking_effort t"
  by (cases t) (auto simp add: thinking_param_def)

lemma thinking_param_Some: "\<exists>t'. thinking_param m (Some t) rf = Some t'"
  by (cases t) (auto simp add: thinking_param_def)

text \<open>
  C3, as amended. For the reasoning model HCX-007, every request that \<open>create\<close> builds
  carries no \<open>maxTokens\<close>, and its completion-token limit comes from exactly one source,
  in this order: an explicit \<open>max_completion_tokens\<close>; otherwise an explicit
  \<open>max_tokens\<close>, folded into the completion-token field; otherwise, when a non-empty
  thinking configuration is supplied, the effort table (none 512, low 5120, medium 10240,
  high 20480) at its effort, which is low when the configuration names none; otherwise
  2048.
\<close>

theorem reasoning_model_token_limit:
  assumes "model a = py ''HCX-007''" and "create_request ok a = Inr req"
  shows "req_max_tokens req = None \<and>
         req_max_completion_tokens req =
           Some (spec_completion_limit
                   (if max_completion_tokens a \<noteq> None then max_completion_tokens a
                    else max_tokens a)
                   (if thinking_truthy (thinking a) then Some (thinking_effort (the (thinking a)))
                    else None))"
proof -
  obtain prepared where
    r: "ChatCompletionRequest ok
         \<lparr>rd_messages = prepared,
          rd_maxTokens =
            fst (token_params (model a) (max_tokens a) (max_completion_tokens a) (thinking a)),
          rd_maxCompletionTokens =
            snd (token_params (model a) (max_tokens a) (max_completion_tokens a) (thinking a)),
          rd_thinking = thinking_param (model a) (thinking a) (response_format a),
          rd_tools = tools a,
          rd_responseFormat = response_format a\<rparr> = Inr req"
    using assms(2) by (auto simp add: create_request_def split: sum.splits)
  note c = ChatCompletionRequest_Inr [OF r]
  have v: "thinking_truthy (thinking a) \<Longrightarrow> valid_effort (thinking_effort (the (thinking a)))"
  proof -
    assume "thinking_truthy (thinking a)"
    then obtain t where t: "thinking a = Some t"
      by (cases "thinking a") auto
    obtain t' where t': "thinking_param (model a) (Some t) (response_format a) = Some t'"
      using thinking_param_Some by blast
    have "valid_effort (thinking_effort t')"
      using c t t' by simp
    then show ?thesis
      using thinking_param_effort [OF t'] t by simp
  qed
  have m: "req_max_tokens req = None"
    using c assms(1) by (simp add: token_params_def)
  have l: "req_max_completion_tokens req =
      snd (token_params (py ''HCX-007'') (max_tokens a) (max_completion_tokens a) (thinking a))"
    using c assms(1) by simp
  show ?thesis
  proof (cases "max_completion_tokens a")
    case (Some x)
    then show ?thesis
      using m l by (simp add: token_params_def spec_completion_limit_def)
  next
    case None
    note mct = None
    show ?thesis
    proof (cases "max_tokens a")
      case (Some y)
      then show ?thesis
        using m l mct by (simp add: token_params_def spec_completion_limit_def)
    next
      case None
      show ?thesis
      proof (cases "thinking_truthy (thinking a)")
        case True
        then show ?thesis
          using m l mct None get_max_tokens_valid [OF v [OF True]]
          by (simp add: token_params_def)
      next
        case False
        then show ?thesis
          using m l mct None by (simp add: token_params_def spec_completion_limit_def)
      qed
    qed
  qed
qed

lemmas create_eval = create_request_def check_capabilities_def prepare_message_def
  ChatCompletionRequest_def token_params_def thinking_param_def validate_token_params_def
  ge1_def valid_effort_def has_image_def validate_model_capability_def model_caps_def
  capabilities_def get_max_tokens_def effort_defaults_def model_defaults_def

theorem reasoning_model_token_limit_witness:
  "model hcx007_thinking_call = py ''HCX-007'' \<and>
   create_request (\<lambda>rd. True) hcx007_thinking_call =
     Inr \<lparr>req_messages = [[(py ''role'', PStr (py ''user'')), (py ''content'', PStr (py ''hi''))]],
          req_max_tokens = None,
          req_max_completion_tokens = Some 10240,
          req_thinking = Some (py ''medium''),
          req_tools = None,
          req_response_format = None\<rparr> \<and>
   spec_completion_limit None (Some (py ''medium'')) = 10240"
proof -
  let ?r = "\<lparr>req_messages = [[(py ''role'', PStr (py ''user'')), (py ''content'', PStr (py ''hi''))]],
          req_max_tokens = None,
          req_max_completion_tokens = Some 10240,
          req_thinking = Some (py ''medium''),
          req_tools = None,
          req_response_format = None\<rparr>"
  have m: "model hcx007_thinking_call = py ''HCX-007''"
    by (simp add: hcx007_thinking_call_def)
  have r: "create_request (\<lambda>rd. True) hcx007_thinking_call = Inr ?r"
    by (simp add: hcx007_thinking_call_def create_eval)
  have "req_max_completion_tokens ?r =
      Some (spec_completion_limit None (Some (py ''medium'')))"
    using reasoning_model_token_limit [OF m r] by (simp add: hcx007_thinking_call_def)
  then show ?thesis
    using m r by simp
qed

lemma hcx007_max_tokens_call_request:
  "create_request (\<lambda>rd. True) hcx007_max_tokens_call =
     Inr \<lparr>req_messages = [[(py ''role'', PStr (py ''user'')), (py ''content'', PStr (py ''hi''))]],
          req_max_tokens = None,
          req_max_completion_tokens = Some 100,
          req_thinking = Some (py ''high''),
          req_tools = None,
          req_response_format = None\<rparr>"
  by (simp add: hcx007_max_tokens_call_def create_eval)

text \<open>
  C3 as first stated fails: with \<open>max_tokens=100\<close>, no
  \<open>max_completion_tokens\<close> and the thinking effort high, the request is built with the
  limit 100, where the three-source precedence gives 20480.
\<close>

theorem reasoning_model_token_limit_counterexample:
  "map_sum id req_max_completion_tokens (create_request (\<lambda>rd. True) hcx007_max_tokens_call) =
     Inr (Some 100) \<and>
   model hcx007_max_tokens_call = py ''HCX-007'' \<and>
   max_completion_tokens hcx007_max_tokens_call = None \<and>
   thinking hcx007_max_tokens_call = Some (ThinkingDict [(py ''effort'', py ''high'')]) \<and>
   spec_completion_limit (max_completion_tokens hcx007_max_tokens_call) (Some (py ''high'')) = 20480"
  by (simp add: hcx007_max_tokens_call_request)
    (simp add: hcx007_max_tokens_call_def spec_completion_limit_def)

text \<open>
  C4. Building a request with both \<open>max_tokens\<close> and \<open>max_completion_tokens\<close> does
  not fail in \<open>create\<close>, against its docstring (``mutually exclusive'') and the
  validator of the request model: \<open>create\<close> puts only one of the two into the request
  data (here \<open>maxTokens = 10\<close>), the validator never sees both, and the request is
  built.
\<close>

theorem create_accepts_both_token_limits:
  "max_tokens both_limits_call = Some 10 \<and>
   max_completion_tokens both_limits_call = Some 20 \<and>
   create_request (\<lambda>rd. True) both_limits_call =
     Inr \<lparr>req_messages = [[(py ''role'', PStr (py ''user'')), (py ''content'', PStr (py ''hi''))]],
          req_max_tokens = Some 10,
          req_max_completion_tokens = None,
          req_thinking = None,
          req_tools = None,
          req_response_format = None\<rparr>"
  by (simp add: both_limits_call_def create_eval)

text \<open>
  For every call the second limit is simply not looked at: with both supplied, \<open>create\<close>
  does what it does with only \<open>max_completion_tokens\<close> for HCX-007, and with only
  \<open>max_tokens\<close> for any other model.
\<close>

lemma token_params_both:
  "token_params m (Some x) (Some y) th =
     (if m = py ''HCX-007'' then token_params m None (Some y) th
      else token_params m (Some x) None th)"
  by (simp add: token_params_def)

lemma create_both_token_limits_as_one:
  assumes "max_tokens a = Some x" and "max_completion_tokens a = Some y"
  shows "create_request ok a =
     (if model a = py ''HCX-007'' then create_request ok (a\<lparr>max_tokens := None\<rparr>)
      else create_request ok (a\<lparr>max_completion_tokens := None\<rparr>))"
proof -
  have c: "check_capabilities (a\<lparr>max_tokens := None\<rparr>) = check_capabilities a"
    "check_capabilities (a\<lparr>max_completion_tokens := None\<rparr>) = check_capabilities a"
    by (auto simp add: check_capabilities_def split: sum.splits)
  show ?thesis
  proof (cases "model a = py ''HCX-007''")
    case True
    then show ?thesis
      using assms token_params_both [of "model a" x y "thinking a"]
      by (auto simp add: create_request_def c split: sum.splits)
  next
    case False
    then show ?thesis
      using assms token_params_both [of "model a" x y "thinking a"]
      by (auto simp add: create_request_def c split: sum.splits)
  qed
qed

text \<open>The request model itself, given both fields, refuses them.\<close>

lemma ChatCompletionRequest_both_token_limits:
  "ChatCompletionRequest ok (rd\<lparr>rd_maxTokens := Some x, rd_maxCompletionTokens := Some y\<rparr>) =
     Inl ValidationError"
  by (simp add: ChatCompletionRequest_def validate_token_params_def)

section \<open>The retry driver\<close>

lemma backoff_delay_Suc: "min (backoff_delay a * 2) 60 = backoff_delay (Suc a)"
  by (simp add: backoff_delay_def min_def)

lemma retry_loop_done:
  "\<not> int a < N \<Longrightarrow>
   retry_loop func N bf md a d le =
     ([], (case le of None \<Rightarrow> RaiseNone | Some e \<Rightarrow> Propagated e))"
  by (simp add: retry_loop.simps [of func N bf md a d le])

lemma attempts_trace_one: "attempts_trace a (Suc a) = [Call a]"
  by (simp add: attempts_trace_def)

lemma attempts_trace_step:
  "Suc a < c \<Longrightarrow>
   attempts_trace a c = Call a # Sleep (backoff_delay a) # attempts_trace (Suc a) c"
proof -
  assume "Suc a < c"
  then have "[a..<c - 1] = a # [Suc a..<c - 1]"
    by (simp add: upt_conv_Cons)
  then show ?thesis
    by (simp add: attempts_trace_def)
qed

lemma n_calls_attempts_trace: "a < c \<Longrightarrow> n_calls (attempts_trace a c) = c - a"
proof (induction "c - a" arbitrary: a)
  case 0
  then show ?case by simp
next
  case (Suc n)
  show ?case
  proof (cases "Suc a < c")
    case True
    have "n_calls (attempts_trace (Suc a) c) = c - Suc a"
      using Suc True by simp
    then show ?thesis
      using True by (simp add: attempts_trace_step n_calls_def)
  next
    case False
    then have "c = Suc a"
      using Suc.prems by simp
    then show ?thesis
      by (simp add: attempts_trace_one n_calls_def)
  qed
qed

lemma retry_loop_run:
  "int a < N \<Longrightarrow>
   \<exists>c. a < c \<and> int c \<le> N \<and>
       fst (retry_loop func N 2 60 a (backoff_delay a) le) = attempts_trace a c \<and>
       snd (retry_loop func N 2 60 a (backoff_delay a) le) = ending_of (func (c - 1)) \<and>
       (\<forall>k. a \<le> k \<and> k < c - 1 \<longrightarrow> is_raise (func k)) \<and>
       (int c < N \<longrightarrow> \<not> is_raise (func (c - 1)))"
proof (induction "nat N - a" arbitrary: a le)
  case 0
  then show ?case by simp
next
  case (Suc n)
  let ?run = "retry_loop func N 2 60 a (backoff_delay a) le"
  show ?case
  proof (cases "func a")
    case (Return v)
    then have "?run = ([Call a], Result v)"
      using Suc.prems by (simp add: retry_loop.simps [of func N 2 60 a])
    then show ?thesis
      using Return Suc.prems
      by (intro exI [of _ "Suc a"]) (auto simp add: attempts_trace_one)
  next
    case (RaiseBase e)
    then have "?run = ([Call a], Propagated e)"
      using Suc.prems by (simp add: retry_loop.simps [of func N 2 60 a])
    then show ?thesis
      using RaiseBase Suc.prems
      by (intro exI [of _ "Suc a"]) (auto simp add: attempts_trace_one)
  next
    case (Raise e)
    show ?thesis
    proof (cases "int a < N - 1")
      case True
      let ?next = "retry_loop func N 2 60 (Suc a) (backoff_delay (Suc a)) (Some e)"
      have r: "?run = (Call a # Sleep (backoff_delay a) # fst ?next, snd ?next)"
        using Raise Suc.prems True
        by (simp add: retry_loop.simps [of func N 2 60 a] backoff_delay_Suc split: prod.splits)
      have "n = nat N - Suc a" and "int (Suc a) < N"
        using Suc.hyps(2) True by simp_all
      then obtain c where c: "Suc a < c" "int c \<le> N"
        "fst ?next = attempts_trace (Suc a) c"
        "snd ?next = ending_of (func (c - 1))"
        "\<forall>k. Suc a \<le> k \<and> k < c - 1 \<longrightarrow> is_raise (func k)"
        "int c < N \<longrightarrow> \<not> is_raise (func (c - 1))"
        using Suc.hyps(1) [of "Suc a" "Some e"] by blast
      have "\<forall>k. a \<le> k \<and> k < c - 1 \<longrightarrow> is_raise (func k)"
      proof (intro allI impI)
        fix k assume "a \<le> k \<and> k < c - 1"
        then have "k = a \<or> (Suc a \<le> k \<and> k < c - 1)" by auto
        then show "is_raise (func k)"
          using c(5) Raise by auto
      qed
      then show ?thesis
        using c r by (intro exI [of _ c]) (simp add: attempts_trace_step)
    next
      case False
      then have "\<not> int (Suc a) < N"
        by simp
      then have "retry_loop func N 2 60 (Suc a) (backoff_delay a) (Some e) = ([], Propagated e)"
        by (simp add: retry_loop_done)
      then have "?run = ([Call a], Propagated e)"
        using Raise Suc.prems False by (simp add: retry_loop.simps [of func N 2 60 a])
      then show ?thesis
        using Raise Suc.prems False
        by (intro exI [of _ "Suc a"]) (auto simp add: attempts_trace_one)
    qed
  qed
qed

text \<open>
  C5. With \<open>max_retries = N\<close>, \<open>N\<close> at least 1, and the default delays,
  \<open>retry_with_backoff\<close> calls the operation at least once and at most \<open>N\<close> times;
  its effects are the calls in order with exactly one sleep between each two consecutive
  calls, the delays starting at 1 second and doubling, capped at 60 (for three calls: 1
  then 2); it ends as its last call ends; and when all \<open>N\<close> attempts raise, there are
  \<open>N\<close> calls and the exception object raised by the last one propagates.
\<close>

theorem retry_with_backoff_schedule:
  assumes "1 \<le> N"
  shows "1 \<le> n_calls (fst (retry_with_backoff func N 1 2 60)) \<and>
         int (n_calls (fst (retry_with_backoff func N 1 2 60))) \<le> N \<and>
         fst (retry_with_backoff func N 1 2 60) =
           attempts_trace 0 (n_calls (fst (retry_with_backoff func N 1 2 60))) \<and>
         snd (retry_with_backoff func N 1 2 60) =
           ending_of (func (n_calls (fst (retry_with_backoff func N 1 2 60)) - 1)) \<and>
         ((\<forall>k<nat N. is_raise (func k)) \<longrightarrow>
            n_calls (fst (retry_with_backoff func N 1 2 60)) = nat N \<and>
            (\<exists>e. func (nat N - 1) = Raise e \<and>
                 snd (retry_with_backoff func N 1 2 60) = Propagated e)) \<and>
         attempts_trace 0 3 = [Call 0, Sleep 1, Call 1, Sleep 2, Call 2] \<and>
         (\<forall>k. backoff_delay k \<le> 60 \<and> backoff_delay 0 = 1 \<and>
              (backoff_delay (Suc k) = 2 * backoff_delay k \<or> backoff_delay (Suc k) = 60))"
proof -
  let ?run = "retry_with_backoff func N 1 2 60"
  have b0: "backoff_delay 0 = 1"
    by (simp add: backoff_delay_def)
  have "int 0 < N"
    using assms by simp
  then obtain c where c: "0 < c" "int c \<le> N"
    "fst ?run = attempts_trace 0 c"
    "snd ?run = ending_of (func (c - 1))"
    "\<forall>k. 0 \<le> k \<and> k < c - 1 \<longrightarrow> is_raise (func k)"
    "int c < N \<longrightarrow> \<not> is_raise (func (c - 1))"
    using retry_loop_run [of 0 N func None] unfolding retry_with_backoff_def b0 by auto
  have n: "n_calls (fst ?run) = c"
    using c(1,3) n_calls_attempts_trace [of 0 c] by simp
  have all: "(\<forall>k<nat N. is_raise (func k)) \<longrightarrow>
      c = nat N \<and> (\<exists>e. func (nat N - 1) = Raise e \<and> snd ?run = Propagated e)"
  proof
    assume a: "\<forall>k<nat N. is_raise (func k)"
    have "\<not> int c < N"
    proof
      assume l: "int c < N"
      then have "c - 1 < nat N" using c(1) by simp
      then have "is_raise (func (c - 1))" using a by blast
      then show False using c(6) l by blast
    qed
    then have cn: "c = nat N"
      using c(2) by simp
    have "is_raise (func (nat N - 1))"
      using a assms by simp
    then obtain e where e: "func (nat N - 1) = Raise e"
      by (cases "func (nat N - 1)") auto
    then have "snd ?run = Propagated e"
      using c(4) cn by simp
    then show "c = nat N \<and> (\<exists>e. func (nat N - 1) = Raise e \<and> snd ?run = Propagated e)"
      using cn e by blast
  qed
  have t3: "attempts_trace 0 3 = [Call 0, Sleep 1, Call 1, Sleep 2, Call 2]"
    by (simp add: attempts_trace_def backoff_delay_def upt_conv_Cons)
  have sched: "\<forall>k. backoff_delay k \<le> 60 \<and> backoff_delay 0 = 1 \<and>
      (backoff_delay (Suc k) = 2 * backoff_delay k \<or> backoff_delay (Suc k) = 60)"
    by (simp add: backoff_delay_def min_def)
  have c1: "1 \<le> c"
    using c(1) by simp
  show ?thesis
    unfolding n using c1 c(2,3,4) all t3 sched by blast
qed

theorem retry_with_backoff_schedule_witness:
  "(1::int) \<le> 3 \<and>
   retry_with_backoff (\<lambda>k. Raise (10 + k) :: (unit, nat) attempt) 3 1 2 60 =
     ([Call 0, Sleep 1, Call 1, Sleep 2, Call 2], Propagated 12)"
proof -
  let ?f = "\<lambda>k. Raise (10 + k) :: (unit, nat) attempt"
  have h: "(1::int) \<le> 3" by simp
  note t = retry_with_backoff_schedule [OF h, of ?f]
  have a: "\<forall>k<nat 3. is_raise (?f k)" by simp
  have n: "n_calls (fst (retry_with_backoff ?f 3 1 2 60)) = 3"
    using t a by simp
  have 1: "fst (retry_with_backoff ?f 3 1 2 60) = [Call 0, Sleep 1, Call 1, Sleep 2, Call 2]"
    using t n by simp
  have 2: "snd (retry_with_backoff ?f 3 1 2 60) = Propagated 12"
    using t n by simp
  show ?thesis
    using h 1 2 by (simp add: prod_eq_iff)
qed

text \<open>
  With \<open>max_retries = 0\<close> the loop body of \<open>retry_with_backoff\<close> does not run, and
  the final \<open>raise last_exception\<close> raises \<open>None\<close>.
\<close>

lemma retry_with_backoff_zero: "retry_with_backoff func 0 d bf md = ([], RaiseNone)"
  by (simp add: retry_with_backoff_def retry_loop_done)

lemma ending_of_not_RaiseNone: "ending_of a \<noteq> RaiseNone"
  by (cases a) simp_all

lemma retry_with_backoff_calls:
  assumes "0 < m"
  shows "1 \<le> n_calls (fst (retry_with_backoff func m 1 2 60)) \<and>
         snd (retry_with_backoff func m 1 2 60) \<noteq> RaiseNone"
proof -
  have b0: "backoff_delay 0 = 1"
    by (simp add: backoff_delay_def)
  have "int 0 < m"
    using assms by simp
  then obtain c where c: "0 < c"
    "fst (retry_with_backoff func m 1 2 60) = attempts_trace 0 c"
    "snd (retry_with_backoff func m 1 2 60) = ending_of (func (c - 1))"
    using retry_loop_run [of 0 m func None] unfolding retry_with_backoff_def b0 by auto
  have "n_calls (fst (retry_with_backoff func m 1 2 60)) = c"
    using c(1,2) n_calls_attempts_trace [of 0 c] by simp
  then show ?thesis
    using c(1,3) by (simp add: ending_of_not_RaiseNone)
qed

text \<open>
  C9, as amended. With \<open>max_retries = 0\<close> the request path (the end of
  \<open>_create_sync\<close>, which is what calls the retry driver) makes exactly one call of the
  operation, outside \<open>retry_with_backoff\<close>, and no sleep: the operation's value is
  returned when it returns, and its exception propagates when it raises. The request
  path hands the driver only a positive \<open>max_retries\<close>, so for every \<open>max_retries\<close>
  it calls the operation at least once and never ends in \<open>raise None\<close>.
\<close>

theorem create_sync_zero_retries:
  "fst (create_sync func 0) = [Call 0] \<and>
   (func 0 = Return v \<longrightarrow> snd (create_sync func 0) = Result v) \<and>
   (func 0 = Raise e \<longrightarrow> snd (create_sync func 0) = Propagated e) \<and>
   (func 0 = RaiseBase e \<longrightarrow> snd (create_sync func 0) = Propagated e) \<and>
   (m \<le> 0 \<longrightarrow> create_sync func m = ([Call 0], ending_of (func 0))) \<and>
   (0 < m \<longrightarrow> create_sync func m = retry_with_backoff func m 1 2 60) \<and>
   1 \<le> n_calls (fst (create_sync func m)) \<and>
   snd (create_sync func m) \<noteq> RaiseNone"
proof -
  have z: "create_sync func 0 = ([Call 0], ending_of (func 0))"
    by (cases "func 0") (simp_all add: create_sync_def)
  have le: "m \<le> 0 \<longrightarrow> create_sync func m = ([Call 0], ending_of (func 0))"
    by (cases "func 0") (simp_all add: create_sync_def)
  have gt: "0 < m \<longrightarrow> create_sync func m = retry_with_backoff func m 1 2 60"
    by (simp add: create_sync_def)
  have n: "1 \<le> n_calls (fst (create_sync func m)) \<and> snd (create_sync func m) \<noteq> RaiseNone"
  proof (cases "0 < m")
    case True
    then show ?thesis
      using gt retry_with_backoff_calls [OF True, of func] by simp
  next
    case False
    then have "create_sync func m = ([Call 0], ending_of (func 0))"
      using le by simp
    then show ?thesis
      by (simp add: n_calls_def ending_of_not_RaiseNone)
  qed
  show ?thesis
    using z le gt n by simp
qed

theorem create_sync_zero_retries_witness:
  "create_sync (\<lambda>k. Return (5::int) :: (int, nat) attempt) 0 = ([Call 0], Result 5) \<and>
   create_sync (\<lambda>k. Raise (7::nat) :: (int, nat) attempt) 0 = ([Call 0], Propagated 7) \<and>
   create_sync (\<lambda>k. Return (5::int) :: (int, nat) attempt) 3 =
     retry_with_backoff (\<lambda>k. Return (5::int) :: (int, nat) attempt) 3 1 2 60 \<and>
   1 \<le> n_calls (fst (create_sync (\<lambda>k. Return (5::int) :: (int, nat) attempt) 3))"
proof -
  have 1: "create_sync (\<lambda>k. Return (5::int) :: (int, nat) attempt) 0 = ([Call 0], Result 5)"
    using create_sync_zero_retries [of "\<lambda>k. Return (5::int) :: (int, nat) attempt" 5 7 0]
    by (simp add: prod_eq_iff)
  have 2: "create_sync (\<lambda>k. Raise (7::nat) :: (int, nat) attempt) 0 = ([Call 0], Propagated 7)"
    using create_sync_zero_retries [of "\<lambda>k. Raise (7::nat) :: (int, nat) attempt" 5 7 0]
    by (simp add: prod_eq_iff)
  have 3: "create_sync (\<lambda>k. Return (5::int) :: (int, nat) attempt) 3 =
      retry_with_backoff (\<lambda>k. Return (5::int) :: (int, nat) attempt) 3 1 2 60 \<and>
      1 \<le> n_calls (fst (create_sync (\<lambda>k. Return (5::int) :: (int, nat) attempt) 3))"
  proof -
    have p: "(0::int) < 3" by simp
    note t = create_sync_zero_retries [of "\<lambda>k. Return (5::int) :: (int, nat) attempt" 5 7 3]
    have a: "create_sync (\<lambda>k. Return (5::int) :: (int, nat) attempt) 3 =
        retry_with_backoff (\<lambda>k. Return (5::int) :: (int, nat) attempt) 3 1 2 60"
      using t p by blast
    have b: "1 \<le> n_calls (fst (create_sync (\<lambda>k. Return (5::int) :: (int, nat) attempt) 3))"
      using t by blast
    show ?thesis
      using a b by (rule conjI)
  qed
  show ?thesis
    using 1 2 3 by blast
qed

text \<open>
  C9 as first stated fails: the retry driver itself, called with \<open>max_retries = 0\<close> on
  an operation that would return 5, does not call it and ends in \<open>raise None\<close>.
\<close>

theorem retry_with_backoff_zero_counterexample:
  "retry_with_backoff (\<lambda>k. Return (5::int) :: (int, nat) attempt) 0 1 2 60 = ([], RaiseNone) \<and>
   n_calls (fst (retry_with_backoff (\<lambda>k. Return (5::int) :: (int, nat) attempt) 0 1 2 60)) = 0"
  by (simp add: retry_with_backoff_zero n_calls_def)

section \<open>The stream decoder: error frames and closing the transport\<close>

lemma n_closes_yields: "n_closes (map Yield cs @ tr) = n_closes tr"
  by (induction cs) (simp_all add: n_closes_def)

lemma n_closes_finish: "n_closes (finish r) = 1"
  by (cases r) (simp_all add: n_closes_def)

lemma n_closes_run_generator: "started c \<Longrightarrow> n_closes (run_generator (cs, r) c) = 1"
proof (cases c)
  case Exhaust
  then show ?thesis
    by (simp add: n_closes_yields n_closes_finish)
next
  case (Abandon n)
  assume "started c"
  then have "0 < n" using Abandon by simp
  then show ?thesis
    using Abandon by (simp add: n_closes_yields n_closes_finish) (simp add: n_closes_def)
qed

text \<open>
  C8. On every exit path of a chunk sequence that has been started (the consumer pulls
  to the end, or pulls at least once and then abandons the generator), the transport
  response is closed exactly once, in the synchronous and in the asynchronous class
  alike: after the last chunk and before \<open>StopIteration\<close> when the stream completes,
  after the last chunk and before the \<open>StreamingError\<close> when the body raises, and at
  the \<open>yield\<close> where the generator is suspended when the consumer abandons it.
\<close>

theorem transport_closed_exactly_once:
  assumes "started c"
  shows "n_closes (StreamingResponse_iter rt lines transport_error c) = 1 \<and>
         n_closes (AsyncStreamingResponse_aiter rt lines transport_error c) = 1 \<and>
         (stream_body rt new_parser lines transport_error = (cs, None) \<longrightarrow>
            StreamingResponse_iter rt lines transport_error Exhaust = map Yield cs @ [Close, Stop]) \<and>
         (stream_body rt new_parser lines transport_error = (cs, Some x) \<longrightarrow>
            StreamingResponse_iter rt lines transport_error Exhaust =
              map Yield cs @
              [Close, RaiseOut (Exn StreamingError (py ''Error during streaming: '' @ exn_str x))]) \<and>
         (stream_body rt new_parser lines transport_error = (cs, r) \<and> 0 < n \<and> n \<le> length cs \<longrightarrow>
            StreamingResponse_iter rt lines transport_error (Abandon n) =
              map Yield (take n cs) @ [Close])"
proof -
  obtain cs0 r0 where b: "stream_body rt new_parser lines transport_error = (cs0, r0)"
    by (cases "stream_body rt new_parser lines transport_error")
  have 1: "n_closes (StreamingResponse_iter rt lines transport_error c) = 1"
    using assms b by (simp add: StreamingResponse_iter_def stream_from_def n_closes_run_generator)
  have 2: "n_closes (AsyncStreamingResponse_aiter rt lines transport_error c) = 1"
    using assms b
    by (simp add: AsyncStreamingResponse_aiter_def stream_from_def n_closes_run_generator)
  show ?thesis
    using 1 2 by (simp add: StreamingResponse_iter_def stream_from_def)
qed

text \<open>
  A generator that is created and never advanced has not entered its \<open>try\<close>, and
  abandoning it closes nothing.
\<close>

lemma unstarted_generator_never_closes:
  "StreamingResponse_iter rt lines transport_error (Abandon 0) = []"
  by (cases "stream_body rt new_parser lines transport_error")
    (simp add: StreamingResponse_iter_def stream_from_def)

lemma process_events_append:
  "process_events rt pre = (cs, None) \<Longrightarrow>
   process_events rt (pre @ evs) = (cs @ fst (process_events rt evs), snd (process_events rt evs))"
proof (induction pre arbitrary: cs)
  case Nil
  then show ?case by simp
next
  case (Cons ev pre)
  show ?case
  proof (cases "process_event rt ev")
    case (Inl x)
    then show ?thesis using Cons.prems by simp
  next
    case (Inr oc)
    show ?thesis
    proof (cases oc)
      case None
      then show ?thesis
        using Inr Cons by simp
    next
      case (Some ch)
      obtain cs' r' where p: "process_events rt pre = (cs', r')"
        by (cases "process_events rt pre")
      then have "r' = None" and "cs = ch # cs'"
        using Cons.prems Inr Some by simp_all
      then show ?thesis
        using Inr Some p Cons.IH [of cs'] by (simp add: case_prod_beta)
    qed
  qed
qed

lemma error_event_raises:
  assumes "event ev = Some (py ''error'')" and "data ev = Some d" and "d \<noteq> []"
    and "json_loads rt d = Inr j"
  shows "\<exists>x. process_event rt ev = Inl x \<and>
             (\<forall>m. status_message j = Inr m \<longrightarrow>
                  x = Exn StreamingError (py ''Streaming error: '' @ format_value rt m))"
proof (cases "status_message j")
  case (Inl x)
  then show ?thesis
    using assms by (simp add: process_event_def except_json_def)
next
  case (Inr m)
  then show ?thesis
    using assms by (simp add: process_event_def except_json_def)
qed

lemma status_message_embedded:
  "map_of kv (py ''status'') = Some (PDict st) \<Longrightarrow> map_of st (py ''message'') = Some m \<Longrightarrow>
   status_message (PDict kv) = Inr m"
  by (simp add: status_message_def)

text \<open>
  Handed a frame whose event name is \<open>error\<close> and whose data \<open>json.loads\<close>
  decodes, \<open>_process_event\<close> raises and the loop over the frames ends there: the
  chunks of the frames before it have been yielded and no frame after it is processed.
  When the decoded value carries a status message, the exception is the
  \<open>StreamingError\<close> with that message.
\<close>

lemma error_frame_ends_processing:
  assumes "event ev = Some (py ''error'')" and "data ev = Some d" and "d \<noteq> []"
    and "json_loads rt d = Inr j"
    and "process_events rt pre = (cs, None)"
  shows "\<exists>x. process_event rt ev = Inl x \<and>
             process_events rt (pre @ ev # post) = (cs, Some x) \<and>
             (\<forall>kv st m. j = PDict kv \<and> map_of kv (py ''status'') = Some (PDict st) \<and>
                  map_of st (py ''message'') = Some (PStr m) \<longrightarrow>
                x = Exn StreamingError (py ''Streaming error: '' @ m))"
proof -
  obtain x where x: "process_event rt ev = Inl x"
    and xm: "\<forall>m. status_message j = Inr m \<longrightarrow>
                  x = Exn StreamingError (py ''Streaming error: '' @ format_value rt m)"
    using error_event_raises [OF assms(1-4)] by blast
  have e: "process_events rt (pre @ ev # post) = (cs, Some x)"
    using process_events_append [OF assms(5), of "ev # post"] x by simp
  have m: "\<forall>kv st m. j = PDict kv \<and> map_of kv (py ''status'') = Some (PDict st) \<and>
                  map_of st (py ''message'') = Some (PStr m) \<longrightarrow>
                x = Exn StreamingError (py ''Streaming error: '' @ m)"
    using xm status_message_embedded by fastforce
  show ?thesis
    using x e m by blast
qed

text \<open>
  A transport line without a newline is one block with one line, so the frame parsed from
  it has no event name: \<open>__iter__\<close> hands each line to the parser with its own blank
  line, and an event name and its data reach the decoder in one frame only when one
  transport line holds both.
\<close>

lemma split_nn_no_NL: "NL \<notin> set s \<Longrightarrow> split_nn s = None"
  by (induction s rule: split_nn.induct) (auto split: option.splits)

lemma split_on_no_sep: "sep \<notin> set s \<Longrightarrow> split_on sep s = [s]"
  by (induction s) auto

lemma event_parse_line:
  "truthy (data (parse_line f empty_event line)) \<Longrightarrow> event (parse_line f empty_event line) = None"
  by (auto simp add: parse_line_def empty_event_def Let_def split: if_splits option.splits)

lemma line_frames_have_no_event_name:
  assumes "NL \<notin> set line"
  shows "\<forall>e\<in>set (fst (parse f new_parser (line @ [NL, NL]))). event e = None"
proof -
  have "line = [] \<or> last line \<noteq> NL"
    using assms by (cases "line = []") (auto dest: last_in_set)
  then have s: "split_nn (line @ NL # NL # []) = Some (line, [])"
    using split_nn_no_NL [OF assms] by (rule split_nn_complete [rotated])
  show ?thesis
  proof (cases "parse_event f line")
    case None
    then show ?thesis
      using s by (simp add: parse_def new_parser_def parse_loop_Some parse_loop_None)
  next
    case (Some e)
    then have "e = parse_line f empty_event line" and "truthy (data (parse_line f empty_event line))"
      using assms by (auto simp add: parse_event_def split_on_no_sep Let_def split: if_splits)
    then have "event e = None"
      by (simp add: event_parse_line)
    then show ?thesis
      using s Some by (simp add: parse_def new_parser_def parse_loop_Some parse_loop_None)
  qed
qed


lemma line_parse_state:
  assumes "NL \<notin> set line"
  shows "snd (parse f new_parser (line @ [NL, NL])) = new_parser"
proof -
  have "line = [] \<or> last line \<noteq> NL"
    using assms by (cases "line = []") (auto dest: last_in_set)
  then have s: "split_nn (line @ NL # NL # []) = Some (line, [])"
    using split_nn_no_NL [OF assms] by (rule split_nn_complete [rotated])
  then show ?thesis
    by (simp add: parse_def new_parser_def parse_loop_Some parse_loop_None split: option.splits)
qed

lemma process_event_no_event_name: "event ev = None \<Longrightarrow> \<forall>c. process_event rt ev \<noteq> Inr (Some c)"
  by (auto simp add: process_event_def except_json_def split: sum.splits if_splits)

lemma process_events_no_event_name:
  "\<forall>e\<in>set evs. event e = None \<Longrightarrow> fst (process_events rt evs) = []"
proof (induction evs)
  case Nil
  show ?case by simp
next
  case (Cons ev evs)
  then have "\<forall>c. process_event rt ev \<noteq> Inr (Some c)"
    using process_event_no_event_name [of ev rt] by simp
  then show ?case
    using Cons by (auto split: sum.splits option.splits)
qed

text \<open>
  Hence a transport that delivers the stream line by line, no line holding a newline,
  never makes the decoder yield a chunk: each frame has data or an event name, not both.
\<close>

lemma line_transport_yields_no_chunk:
  "\<forall>l\<in>set lines. NL \<notin> set l \<Longrightarrow> fst (stream_body rt new_parser lines transport_error) = []"
proof (induction lines)
  case Nil
  show ?case by simp
next
  case (Cons l lines)
  then have n: "NL \<notin> set l" by simp
  have a: "fst (process_events rt (fst (parse (py_int rt) new_parser (l @ [NL, NL])))) = []"
    using line_frames_have_no_event_name [OF n, of "py_int rt"]
    by (rule process_events_no_event_name)
  have b: "snd (parse (py_int rt) new_parser (l @ [NL, NL])) = new_parser"
    using n by (rule line_parse_state)
  show ?case
    using Cons a b by (simp add: case_prod_beta split: option.splits)
qed

lemmas wire_eval = wire_error_body_def wire_error_json_def wire_error_lines_def
  wire_error_block_def wire_error_frame_def wire_runtime_def dq_def

lemma wire_error_block_frame:
  "parse_event f wire_error_block = Some wire_error_frame"
  by (simp add: wire_eval sse_eval)

lemma wire_error_frame_raises:
  "process_event (wire_runtime f l m s) wire_error_frame =
     Inl (Exn StreamingError (py ''Streaming error: rate limited''))"
  by (simp add: wire_eval process_event_def except_json_def status_message_def py_def)

lemma wire_error_lines_body:
  "stream_body (wire_runtime f l m s) new_parser wire_error_lines None = ([], None)"
  by (simp add: wire_eval process_event_def except_json_def sse_eval parse_def
      parse_loop_Some parse_loop_None)

text \<open>
  C2. An error event on the wire does not make the stream decoder raise. The transport
  delivers the event as an event line, a data line and a blank line; \<open>__iter__\<close> ends
  the block after each of them, the frame the decoder receives has the data and no event
  name, and the sequence completes without an exception. \<open>_process_event\<close> does raise
  the \<open>StreamingError\<close> with the status message when it is handed the frame of the
  whole block, which \<open>__iter__\<close> never gives it.
\<close>

theorem wire_error_event_raises_nothing:
  "StreamingResponse_iter (wire_runtime f l m s) wire_error_lines None Exhaust = [Close, Stop] \<and>
   AsyncStreamingResponse_aiter (wire_runtime f l m s) wire_error_lines None Exhaust =
     [Close, Stop] \<and>
   parse_event f wire_error_block = Some wire_error_frame \<and>
   process_event (wire_runtime f l m s) wire_error_frame =
     Inl (Exn StreamingError (py ''Streaming error: rate limited''))"
  using wire_error_lines_body [of f l m s] wire_error_block_frame [of f]
    wire_error_frame_raises [of f l m s]
  by (simp add: StreamingResponse_iter_def AsyncStreamingResponse_aiter_def stream_from_def)

lemmas stream_eval = demo_runtime_def error_body_def error_json_def dq_def token_frame_def
  error_frame_def process_event_def except_json_def status_message_def

lemma demo_line_frames:
  "parse (py_int demo_runtime) new_parser (demo_line @ [NL, NL]) =
     ([token_frame] @ error_frame # [token_frame], new_parser)"
  by (simp add: demo_line_def stream_eval sse_eval parse_def parse_loop_Some parse_loop_None)

theorem transport_closed_exactly_once_witness:
  "started Exhaust \<and> started (Abandon 1) \<and>
   n_closes (StreamingResponse_iter demo_runtime [demo_line] None Exhaust) = 1 \<and>
   n_closes (AsyncStreamingResponse_aiter demo_runtime [demo_line] None (Abandon 1)) = 1 \<and>
   StreamingResponse_iter demo_runtime [demo_line] None (Abandon 1) = [Yield (PDict []), Close] \<and>
   StreamingResponse_iter demo_runtime [py ''event: token'', py ''data: {}''] None Exhaust =
     [Close, Stop]"
proof -
  note t = transport_closed_exactly_once
  have n: "demo_line \<noteq> []"
    by (simp add: demo_line_def)
  have b: "stream_body demo_runtime new_parser [demo_line] None =
      ([PDict []], Some (Exn StreamingError (py ''Streaming error: rate limited'')))"
    using demo_line_frames n by (simp add: stream_eval py_def)
  have 1: "n_closes (StreamingResponse_iter demo_runtime [demo_line] None Exhaust) = 1"
    using t [of Exhaust demo_runtime "[demo_line]" None] by simp
  have 2: "n_closes (AsyncStreamingResponse_aiter demo_runtime [demo_line] None (Abandon 1)) = 1"
    using t [of "Abandon 1" demo_runtime "[demo_line]" None] by simp
  have 3: "StreamingResponse_iter demo_runtime [demo_line] None (Abandon 1) =
      [Yield (PDict []), Close]"
    using t [of Exhaust demo_runtime "[demo_line]" None "[PDict []]" _ _ 1] b by simp
  have c: "stream_body demo_runtime new_parser [py ''event: token'', py ''data: {}''] None = ([], None)"
    by (simp add: stream_eval sse_eval parse_def parse_loop_Some parse_loop_None)
  have 4: "StreamingResponse_iter demo_runtime [py ''event: token'', py ''data: {}''] None Exhaust =
      [Close, Stop]"
    using t [of Exhaust demo_runtime "[py ''event: token'', py ''data: {}'']" None "[]"] c by simp
  show ?thesis
    using 1 2 3 4 by simp
qed

end
